theory Spec2Isabelle
  imports
    Main
    "HOL-Library.Word"
    "HOL-Library.List_Lexorder"
    "HOL-Library.AList"
    "HOL-Library.Multiset"
begin

section \<open>JavaScript strings\<close>

text \<open>
  A JavaScript string is a sequence of 16-bit code units. Comparison of strings
  (\<^verbatim>\<open><\<close>, the default order of \<^verbatim>\<open>Array.prototype.sort\<close>) is lexicographic on the
  code units, which is the order of \<^typ>\<open>16 word list\<close> with the list order of
  \<^theory_text>\<open>List_Lexorder\<close>. \<open>js\<close> writes an ASCII literal as code units.
\<close>

type_synonym jsstring = "16 word list"

definition js :: "string \<Rightarrow> jsstring" where
  "js s = map of_char s"

text \<open>
  \<^verbatim>\<open>xs.join(sep)\<close>: the elements of the array, with the separator between
  neighbours.
\<close>

fun join :: "jsstring \<Rightarrow> jsstring list \<Rightarrow> jsstring" where
  "join sep [] = []"
| "join sep [x] = x"
| "join sep (x # y # ys) = x @ sep @ join sep (y # ys)"

text \<open>
  The white space that \<^verbatim>\<open>String.prototype.trim\<close> removes from both ends: the
  WhiteSpace and LineTerminator code points of ECMAScript (all of them are single code
  units).
\<close>

definition isWhiteSpace :: "16 word \<Rightarrow> bool" where
  "isWhiteSpace c \<longleftrightarrow>
     c \<in> {0x0009, 0x000A, 0x000B, 0x000C, 0x000D, 0x0020, 0x00A0, 0x1680,
          0x2000, 0x2001, 0x2002, 0x2003, 0x2004, 0x2005, 0x2006, 0x2007,
          0x2008, 0x2009, 0x200A, 0x2028, 0x2029, 0x202F, 0x205F, 0x3000, 0xFEFF}"

definition trim :: "jsstring \<Rightarrow> jsstring" where
  "trim s = rev (dropWhile isWhiteSpace (rev (dropWhile isWhiteSpace s)))"

section \<open>ChatIdentity: \<^verbatim>\<open>createChatId\<close> (firebase/config.js)\<close>

text \<open>
  \<^verbatim>\<open>
  export const createChatId = (userId1, userId2) => {
    return [userId1, userId2].sort().join('_');
  };
  \<close>
  The default \<^verbatim>\<open>sort()\<close> orders strings by code units; on a two-element array
  every sorting algorithm returns the smaller string first, so the library's
  \<^const>\<open>sort\<close> stands for it.
\<close>

definition createChatId :: "jsstring \<Rightarrow> jsstring \<Rightarrow> jsstring" where
  "createChatId userId1 userId2 = join (js ''_'') (sort [userId1, userId2])"

section \<open>The document store\<close>

text \<open>
  The code keeps its data in Cloud Firestore: a collection \<^verbatim>\<open>chats\<close> of ledger
  documents keyed by the chat id, and under every chat a sub-collection
  \<^verbatim>\<open>messages\<close>. A message document has one of the two shapes that
  \<^verbatim>\<open>sendMessage\<close> and \<^verbatim>\<open>sendMediaMessage\<close> write; \<open>msgId\<close> is the id of
  the document (\<^verbatim>\<open>doc.id\<close>), which \<^verbatim>\<open>addDoc\<close> assigns. A timestamp is a point
  of the server's time. Where the code compares two timestamps through their
  \<^verbatim>\<open>Date\<close> values (\<^verbatim>\<open>toDate()\<close>), the timestamp stands for that value.
\<close>

record fileInfo =
  file_url :: jsstring
  file_name :: jsstring
  file_size :: nat
  file_type :: jsstring

datatype payload =
    Content jsstring
  | Media (mediaType: jsstring) (mediaUrl: jsstring) (fileName: jsstring)
      (fileSize: nat) (fileType: jsstring)

record message =
  msgId :: nat
  senderId :: jsstring
  receiverId :: jsstring
  payload :: payload
  timestamp :: nat
  read :: bool

text \<open>
  A ledger document. Every field may be absent, since \<^verbatim>\<open>markChatAsRead\<close> can create
  a document that holds a counter only. The fields \<^verbatim>\<open>unreadCount_${userId}\<close> are a
  family indexed by the user id; \<open>unreadCount_of d u\<close> is the field
  \<^verbatim>\<open>unreadCount_u\<close> of \<open>d\<close>, a non-negative integer (the code writes 0 and
  successors only).
\<close>

record chat_doc =
  participants :: "jsstring list option"
  lastMessage :: "jsstring option"
  lastMessageTimestamp :: "nat option"
  lastMessageSender :: "jsstring option"
  unreadCount_of :: "jsstring \<rightharpoonup> nat"

definition emptyDoc :: chat_doc where
  "emptyDoc = \<lparr>participants = None, lastMessage = None, lastMessageTimestamp = None,
     lastMessageSender = None, unreadCount_of = Map.empty\<rparr>"

text \<open>
  The store: the ledger collection in document order, the message sub-collections in
  the order of their creation, and the supply of fresh automatic document ids of
  \<^verbatim>\<open>addDoc\<close>.
\<close>

record store =
  chats :: "(jsstring \<times> chat_doc) list"
  messages :: "jsstring \<Rightarrow> message list"
  nextId :: nat

definition emptyStore :: store where
  "emptyStore = \<lparr>chats = [], messages = (\<lambda>_. []), nextId = 0\<rparr>"

text \<open>\<^verbatim>\<open>addDoc(collection(db, 'chats', chatId, 'messages'), messageData)\<close>\<close>

definition addDoc :: "store \<Rightarrow> jsstring \<Rightarrow> message \<Rightarrow> store" where
  "addDoc st chatId messageData =
     st\<lparr>messages := (messages st)(chatId := messages st chatId @ [messageData\<lparr>msgId := nextId st\<rparr>]),
        nextId := Suc (nextId st)\<rparr>"

text \<open>\<^verbatim>\<open>(await getDoc(doc(db, 'chats', chatId))).data()\<close>, \<open>None\<close> for \<^verbatim>\<open>undefined\<close>\<close>

definition getDoc :: "store \<Rightarrow> jsstring \<Rightarrow> chat_doc option" where
  "getDoc st chatId = map_of (chats st) chatId"

text \<open>
  \<^verbatim>\<open>setDoc(chatRef, data, { merge: true })\<close>: the fields present in \<open>data\<close>
  replace those of the stored document, all other fields stay; a missing document is
  created.
\<close>

definition mergeFields :: "chat_doc \<Rightarrow> chat_doc \<Rightarrow> chat_doc" where
  "mergeFields old new =
     \<lparr>participants = (case participants new of None \<Rightarrow> participants old | Some p \<Rightarrow> Some p),
      lastMessage = (case lastMessage new of None \<Rightarrow> lastMessage old | Some l \<Rightarrow> Some l),
      lastMessageTimestamp =
        (case lastMessageTimestamp new of None \<Rightarrow> lastMessageTimestamp old | Some t \<Rightarrow> Some t),
      lastMessageSender =
        (case lastMessageSender new of None \<Rightarrow> lastMessageSender old | Some u \<Rightarrow> Some u),
      unreadCount_of = unreadCount_of old ++ unreadCount_of new\<rparr>"

definition setDoc_merge :: "store \<Rightarrow> jsstring \<Rightarrow> chat_doc \<Rightarrow> store" where
  "setDoc_merge st chatId data =
     st\<lparr>chats := AList.update chatId
        (mergeFields (case getDoc st chatId of None \<Rightarrow> emptyDoc | Some d \<Rightarrow> d) data)
        (chats st)\<rparr>"

text \<open>
  Reading a counter the way the code does everywhere,
  \<^verbatim>\<open>data[`unreadCount_${userId}`] || 0\<close>: a missing document or field counts as 0.
\<close>

definition counterOrZero :: "chat_doc \<Rightarrow> jsstring \<Rightarrow> nat" where
  "counterOrZero data userId = (case unreadCount_of data userId of None \<Rightarrow> 0 | Some n \<Rightarrow> n)"

definition unreadCount :: "store \<Rightarrow> jsstring \<Rightarrow> jsstring \<Rightarrow> nat" where
  "unreadCount st chatId userId =
     counterOrZero (case getDoc st chatId of None \<Rightarrow> emptyDoc | Some d \<Rightarrow> d) userId"

section \<open>MessageChannel and ConversationLedger: sending\<close>

text \<open>
  Every awaited call of the store can reject; the \<^verbatim>\<open>try/catch\<close> of the two send
  functions turns a rejection into the result \<^verbatim>\<open>false\<close>. \<open>fault\<close> says which
  call rejects, \<open>msgTime\<close> and \<open>metaTime\<close> are the values the server gives to the
  two \<^verbatim>\<open>serverTimestamp()\<close> fields.
\<close>

datatype send_fault = NoFault | AddDocFails | GetDocFails | SetDocFails

record send_env =
  fault :: send_fault
  msgTime :: nat
  metaTime :: nat

text \<open>
  \<^verbatim>\<open>
  export const sendMessage = async (senderId, receiverId, content) => {
    try {
      const chatId = createChatId(senderId, receiverId);
      const messageData = { senderId, receiverId, content: content.trim(),
                            timestamp: serverTimestamp(), read: false };
      await addDoc(messagesRef, messageData);
      const chatDoc = await getDoc(chatRef);
      const currentData = chatDoc.data() || {};
      const currentUnreadCount = currentData[`unreadCount_${receiverId}`] || 0;
      await setDoc(chatRef, {
        participants: [senderId, receiverId],
        lastMessage: content.trim(),
        lastMessageTimestamp: serverTimestamp(),
        lastMessageSender: senderId,
        [`unreadCount_${receiverId}`]: currentUnreadCount + 1,
        [`unreadCount_${senderId}`]: 0
      }, { merge: true });
      return true;
    } catch (error) { return false; }
  };
  \<close>
  In the object literal the later of two equal computed keys wins, as the later map
  update does.
\<close>

definition ledgerUpdate ::
  "jsstring \<Rightarrow> jsstring \<Rightarrow> jsstring \<Rightarrow> nat \<Rightarrow> nat \<Rightarrow> chat_doc" where
  "ledgerUpdate sender receiver preview t currentUnreadCount =
     \<lparr>participants = Some [sender, receiver],
      lastMessage = Some preview,
      lastMessageTimestamp = Some t,
      lastMessageSender = Some sender,
      unreadCount_of = [receiver \<mapsto> currentUnreadCount + 1, sender \<mapsto> 0]\<rparr>"

definition sendMessage ::
  "store \<Rightarrow> send_env \<Rightarrow> jsstring \<Rightarrow> jsstring \<Rightarrow> jsstring \<Rightarrow> bool \<times> store" where
  "sendMessage st env sender receiver content =
     (let chatId = createChatId sender receiver;
          messageData = \<lparr>msgId = 0, senderId = sender, receiverId = receiver,
            payload = Content (trim content), timestamp = msgTime env, read = False\<rparr>
      in if fault env = AddDocFails then (False, st)
         else
           let st1 = addDoc st chatId messageData
           in if fault env = GetDocFails then (False, st1)
              else
                let currentData = (case getDoc st1 chatId of None \<Rightarrow> emptyDoc | Some d \<Rightarrow> d);
                    currentUnreadCount = counterOrZero currentData receiver
                in if fault env = SetDocFails then (False, st1)
                   else (True, setDoc_merge st1 chatId
                     (ledgerUpdate sender receiver (trim content) (metaTime env)
                        currentUnreadCount)))"

text \<open>
  \<^verbatim>\<open>sendMediaMessage(senderId, receiverId, fileInfo, messageType = 'image')\<close>
  writes the media shape of a message and the same ledger update, with a preview
  chosen by the \<^verbatim>\<open>switch\<close> on the message type: a camera and \<^verbatim>\<open>Photo\<close>, a film
  camera and \<^verbatim>\<open>Video\<close>, or a paper clip and the file name (the three emoji are
  surrogate pairs).
\<close>

definition lastMessagePreview :: "jsstring \<Rightarrow> fileInfo \<Rightarrow> jsstring" where
  "lastMessagePreview messageType info =
     (if messageType = js ''image'' then [0xD83D, 0xDCF7] @ js '' Photo''
      else if messageType = js ''video'' then [0xD83C, 0xDFA5] @ js '' Video''
      else [0xD83D, 0xDCCE] @ js '' '' @ file_name info)"

definition sendMediaMessage ::
  "store \<Rightarrow> send_env \<Rightarrow> jsstring \<Rightarrow> jsstring \<Rightarrow> fileInfo \<Rightarrow> jsstring \<Rightarrow> bool \<times> store" where
  "sendMediaMessage st env sender receiver info messageType =
     (let chatId = createChatId sender receiver;
          messageData = \<lparr>msgId = 0, senderId = sender, receiverId = receiver,
            payload = Media messageType (file_url info) (file_name info) (file_size info)
              (file_type info),
            timestamp = msgTime env, read = False\<rparr>
      in if fault env = AddDocFails then (False, st)
         else
           let st1 = addDoc st chatId messageData
           in if fault env = GetDocFails then (False, st1)
              else
                let currentData = (case getDoc st1 chatId of None \<Rightarrow> emptyDoc | Some d \<Rightarrow> d);
                    currentUnreadCount = counterOrZero currentData receiver
                in if fault env = SetDocFails then (False, st1)
                   else (True, setDoc_merge st1 chatId
                     (ledgerUpdate sender receiver (lastMessagePreview messageType info)
                        (metaTime env) currentUnreadCount)))"

text \<open>
  A sequence of appends from one sender to one receiver, each a text or a media
  message, run one after the other; the results of the calls are collected.
\<close>

datatype append_body = TextBody jsstring | MediaBody fileInfo jsstring

fun channelAppend :: "store \<Rightarrow> send_env \<Rightarrow> jsstring \<Rightarrow> jsstring \<Rightarrow> append_body \<Rightarrow> bool \<times> store" where
  "channelAppend st env sender receiver (TextBody content) = sendMessage st env sender receiver content"
| "channelAppend st env sender receiver (MediaBody info messageType) =
     sendMediaMessage st env sender receiver info messageType"

fun appends ::
  "store \<Rightarrow> jsstring \<Rightarrow> jsstring \<Rightarrow> (send_env \<times> append_body) list \<Rightarrow> bool list \<times> store" where
  "appends st sender receiver [] = ([], st)"
| "appends st sender receiver ((env, body) # rest) =
     (let (ok, st1) = channelAppend st env sender receiver body;
          (oks, st2) = appends st1 sender receiver rest
      in (ok # oks, st2))"

section \<open>ConversationLedger and MessageChannel: reading\<close>

text \<open>
  \<^verbatim>\<open>
  export const markChatAsRead = async (chatId, userId) => {
    try {
      await setDoc(chatRef, { [`unreadCount_${userId}`]: 0 }, { merge: true });
      const q = query(messagesRef, where('receiverId', '==', userId),
                                   where('read', '==', false));
      const snapshot = await getDocs(q);
      const updatePromises = snapshot.docs.map(doc =>
        setDoc(doc.ref, { read: true }, { merge: true }));
      await Promise.all(updatePromises);
    } catch (error) { console.error(...); }
  };
  \<close>
  The function returns nothing. A rejected call ends it at that point; the writes of
  \<^verbatim>\<open>Promise.all\<close> are all started, and those that do not reject take effect
  (\<open>UpdatesFail ids\<close> names the message documents whose write rejects).
\<close>

datatype read_fault = NoReadFault | ResetFails | QueryFails | UpdatesFail "nat list"

definition counterReset :: "jsstring \<Rightarrow> chat_doc" where
  "counterReset userId = emptyDoc\<lparr>unreadCount_of := [userId \<mapsto> 0]\<rparr>"

definition unreadFor :: "jsstring \<Rightarrow> message list \<Rightarrow> message list" where
  "unreadFor userId docs = filter (\<lambda>m. receiverId m = userId \<and> read m = False) docs"

definition markChatAsRead :: "store \<Rightarrow> read_fault \<Rightarrow> jsstring \<Rightarrow> jsstring \<Rightarrow> store" where
  "markChatAsRead st f chatId userId =
     (if f = ResetFails then st
      else
        let st1 = setDoc_merge st chatId (counterReset userId)
        in if f = QueryFails then st1
           else
             let snapshot = unreadFor userId (messages st1 chatId);
                 rejected = (case f of UpdatesFail ids \<Rightarrow> ids | _ \<Rightarrow> [])
             in st1\<lparr>messages := (messages st1)(chatId :=
                  map (\<lambda>m. if msgId m \<in> msgId ` set snapshot \<and> msgId m \<notin> set rejected
                            then m\<lparr>read := True\<rparr> else m)
                    (messages st1 chatId))\<rparr>)"

section \<open>The send handler of the Messages component\<close>

text \<open>
  \<^verbatim>\<open>
  const handleSendMessage = useCallback(async (e) => {
    e.preventDefault();
    if (!newMessage.trim() || !selectedChat || sendingMessage) return;
    setSendingMessage(true);
    setIsActivelyChatting(true);
    const messageToSend = newMessage.trim();
    setNewMessage('');
    try {
      const success = await sendMessage(currentUser.uid, selectedChat, messageToSend);
      if (!success) { setNewMessage(messageToSend); }
    } catch (error) { setNewMessage(messageToSend); }
    finally {
      setSendingMessage(false);
      setTimeout(() => setIsActivelyChatting(false), 1000);
    }
  }, ...);
  \<close>
  The state of the component that the handler reads and writes is a record; the timer
  that clears \<^verbatim>\<open>isActivelyChatting\<close> one second later is an event of its own
  (\<open>settle\<close>). \<^verbatim>\<open>!selectedChat\<close> holds for \<^verbatim>\<open>null\<close> and for the empty
  string. With no signed-in user \<^verbatim>\<open>currentUser.uid\<close> throws inside the
  \<^verbatim>\<open>try\<close>, before \<^verbatim>\<open>sendMessage\<close> is called.
\<close>

record ui_state =
  newMessage :: jsstring
  selectedChat :: "jsstring option"
  sendingMessage :: bool
  isActivelyChatting :: bool

definition handleSendMessage ::
  "ui_state \<times> store \<Rightarrow> send_env \<Rightarrow> jsstring option \<Rightarrow> ui_state \<times> store" where
  "handleSendMessage s env currentUser =
     (let (ui, st) = s
      in case selectedChat ui of
           None \<Rightarrow> (ui, st)
         | Some receiver \<Rightarrow>
             if trim (newMessage ui) = [] \<or> receiver = [] \<or> sendingMessage ui then (ui, st)
             else
               let ui1 = ui\<lparr>sendingMessage := True, isActivelyChatting := True\<rparr>;
                   messageToSend = trim (newMessage ui);
                   ui2 = ui1\<lparr>newMessage := []\<rparr>
               in (case currentUser of
                     None \<Rightarrow> (ui2\<lparr>newMessage := messageToSend, sendingMessage := False\<rparr>, st)
                   | Some uid \<Rightarrow>
                       let (success, st1) = sendMessage st env uid receiver messageToSend;
                           ui3 = (if \<not> success then ui2\<lparr>newMessage := messageToSend\<rparr> else ui2)
                       in (ui3\<lparr>sendingMessage := False\<rparr>, st1)))"

definition settle :: "ui_state \<Rightarrow> ui_state" where
  "settle ui = ui\<lparr>isActivelyChatting := False\<rparr>"

section \<open>MessageChannel: the live page and backward pagination\<close>

text \<open>
  \<^verbatim>\<open>
  export const getChatMessages = (userId1, userId2, callback, limitCount = 50) => {
    const q = query(messagesRef, orderBy('timestamp', 'desc'), limit(limitCount));
    return onSnapshot(q, (snapshot) => {
      const messages = snapshot.docs.map(doc => ({ id: doc.id, ...doc.data() })).reverse();
      callback(messages);
    });
  };

  export const loadOlderMessages = async (userId1, userId2, lastMessage, limitCount = 20) => {
    const q = query(messagesRef, orderBy('timestamp', 'desc'),
                    where('timestamp', '<', lastMessage.timestamp), limit(limitCount));
    const snapshot = await getDocs(q);
    return snapshot.docs.map(doc => ({ id: doc.id, ...doc.data() })).reverse();
  };
  \<close>
  A query orders the documents by the field, latest first, documents with equal
  timestamps by their ids in the same direction. \<open>getChatMessages st u1 u2 n\<close> is
  the page that the callback receives for the snapshot of \<open>st\<close>.
  \<^verbatim>\<open>loadOlderMessages\<close> has no \<^verbatim>\<open>try/catch\<close>: its promise is rejected
  (\<open>None\<close>) when \<^verbatim>\<open>getDocs\<close> rejects, and when the limit is not positive, which
  \<^verbatim>\<open>limit()\<close> refuses. The argument \<^verbatim>\<open>lastMessage\<close> is called \<open>before\<close>.
\<close>

definition orderByTimestampDesc :: "message list \<Rightarrow> message list" where
  "orderByTimestampDesc docs = rev (sort_key timestamp docs)"

definition getChatMessages :: "store \<Rightarrow> jsstring \<Rightarrow> jsstring \<Rightarrow> nat \<Rightarrow> message list" where
  "getChatMessages st userId1 userId2 limitCount =
     rev (take limitCount
       (orderByTimestampDesc (messages st (createChatId userId1 userId2))))"

definition loadOlderMessages ::
  "store \<Rightarrow> bool \<Rightarrow> jsstring \<Rightarrow> jsstring \<Rightarrow> message \<Rightarrow> nat \<Rightarrow> message list option" where
  "loadOlderMessages st getDocsOk userId1 userId2 before limitCount =
     (if limitCount = 0 \<or> \<not> getDocsOk then None
      else Some (rev (take limitCount
        (orderByTimestampDesc
           (filter (\<lambda>m. timestamp m < timestamp before)
              (messages st (createChatId userId1 userId2)))))))"

section \<open>Two clients sending at the same time\<close>

text \<open>
  Between two awaited calls of \<^verbatim>\<open>sendMessage\<close> other clients can reach the store.
  A running call is at one of its three awaited calls, or has returned; after
  \<^verbatim>\<open>getDoc\<close> it holds the counter it has read in \<^verbatim>\<open>currentUnreadCount\<close>. Each
  awaited call is one step on the store. Only calls without a rejection are followed.
\<close>

datatype send_pc = AtAddDoc | AtGetDoc | AtSetDoc nat | Returned

record send_call =
  call_sender :: jsstring
  call_receiver :: jsstring
  call_content :: jsstring
  call_env :: send_env
  call_pc :: send_pc

definition startCall :: "send_env \<Rightarrow> jsstring \<Rightarrow> jsstring \<Rightarrow> jsstring \<Rightarrow> send_call" where
  "startCall env sender receiver content =
     \<lparr>call_sender = sender, call_receiver = receiver, call_content = content,
      call_env = env, call_pc = AtAddDoc\<rparr>"

definition sendStep :: "store \<Rightarrow> send_call \<Rightarrow> store \<times> send_call" where
  "sendStep st c =
     (let chatId = createChatId (call_sender c) (call_receiver c)
      in case call_pc c of
           AtAddDoc \<Rightarrow>
             (addDoc st chatId
                \<lparr>msgId = 0, senderId = call_sender c, receiverId = call_receiver c,
                 payload = Content (trim (call_content c)),
                 timestamp = msgTime (call_env c), read = False\<rparr>,
              c\<lparr>call_pc := AtGetDoc\<rparr>)
         | AtGetDoc \<Rightarrow>
             (st, c\<lparr>call_pc := AtSetDoc
                (counterOrZero (case getDoc st chatId of None \<Rightarrow> emptyDoc | Some d \<Rightarrow> d)
                   (call_receiver c))\<rparr>)
         | AtSetDoc currentUnreadCount \<Rightarrow>
             (setDoc_merge st chatId
                (ledgerUpdate (call_sender c) (call_receiver c) (trim (call_content c))
                   (metaTime (call_env c)) currentUnreadCount),
              c\<lparr>call_pc := Returned\<rparr>)
         | Returned \<Rightarrow> (st, c))"

text \<open>
  A schedule names, step by step, the call that takes its next step.
\<close>

fun runSchedule :: "store \<Rightarrow> send_call list \<Rightarrow> nat list \<Rightarrow> store \<times> send_call list" where
  "runSchedule st calls [] = (st, calls)"
| "runSchedule st calls (i # schedule) =
     (if i < length calls then
        (let (st1, c1) = sendStep st (calls ! i)
         in runSchedule st1 (calls[i := c1]) schedule)
      else runSchedule st calls schedule)"

section \<open>PresenceTracker: \<^verbatim>\<open>listenToUserPresence\<close>\<close>

text \<open>
  \<^verbatim>\<open>
  export const listenToUserPresence = (userIds, callback) => {
    const presenceData = {};
    userIds.forEach(userId => {
      const userStatusRef = ref(rtdb, `/status/${userId}`);
      onValue(userStatusRef, (snapshot) => {
        const status = snapshot.val();
        presenceData[userId] = status?.state === 'online';
        callback(presenceData);
      });
    });
  };
  \<close>
  The realtime database holds the state of every user and the listeners registered
  with \<^verbatim>\<open>onValue\<close>. A listener belongs to one call of
  \<^verbatim>\<open>listenToUserPresence\<close> (a subscription), which owns the object
  \<^verbatim>\<open>presenceData\<close>; the calls of the callback are recorded in \<open>delivered\<close>.
  \<^verbatim>\<open>onValue\<close> returns the function that removes its listener; the code drops it,
  and the function itself returns nothing (\<open>None\<close> for \<^verbatim>\<open>undefined\<close>).
\<close>

record listener =
  subscription :: nat
  watched :: jsstring

record rtdb =
  status :: "jsstring \<rightharpoonup> jsstring"
  listeners :: "listener list"
  presenceData :: "nat \<Rightarrow> (jsstring \<rightharpoonup> bool)"
  delivered :: "(nat \<times> (jsstring \<rightharpoonup> bool)) list"
  nextSubscription :: nat

type_synonym unsubscribe = "listener list"

text \<open>
  The body of the listener: it stores \<^verbatim>\<open>status?.state === 'online'\<close> in the
  \<^verbatim>\<open>presenceData\<close> of its subscription and calls the callback with that object.
\<close>

definition fire :: "rtdb \<Rightarrow> listener \<Rightarrow> rtdb" where
  "fire db l =
     (let data = (presenceData db (subscription l))
                   (watched l \<mapsto> (status db (watched l) = Some (js ''online'')))
      in db\<lparr>presenceData := (presenceData db)(subscription l := data),
            delivered := delivered db @ [(subscription l, data)]\<rparr>)"

text \<open>
  \<^verbatim>\<open>onValue\<close> registers the listener, runs it once with the present value, and
  returns the function that removes it.
\<close>

definition onValue :: "rtdb \<Rightarrow> nat \<Rightarrow> jsstring \<Rightarrow> unsubscribe \<times> rtdb" where
  "onValue db sub userId =
     (let l = \<lparr>subscription = sub, watched = userId\<rparr>
      in ([l], fire (db\<lparr>listeners := listeners db @ [l]\<rparr>) l))"

fun forEachUserId :: "rtdb \<Rightarrow> nat \<Rightarrow> jsstring list \<Rightarrow> rtdb" where
  "forEachUserId db sub [] = db"
| "forEachUserId db sub (userId # userIds) =
     forEachUserId (snd (onValue db sub userId)) sub userIds"

definition listenToUserPresence :: "rtdb \<Rightarrow> jsstring list \<Rightarrow> unsubscribe option \<times> rtdb" where
  "listenToUserPresence db userIds =
     (let sub = nextSubscription db;
          db1 = db\<lparr>presenceData := (presenceData db)(sub := Map.empty),
                   nextSubscription := Suc sub\<rparr>
      in (None, forEachUserId db1 sub userIds))"

text \<open>
  A change of \<^verbatim>\<open>/status/${userId}\<close> runs every listener registered on it, in the
  order of registration.
\<close>

fun notify :: "rtdb \<Rightarrow> jsstring \<Rightarrow> listener list \<Rightarrow> rtdb" where
  "notify db userId [] = db"
| "notify db userId (l # ls) =
     (if watched l = userId then notify (fire db l) userId ls else notify db userId ls)"

definition setStatus :: "rtdb \<Rightarrow> jsstring \<Rightarrow> jsstring \<Rightarrow> rtdb" where
  "setStatus db userId state =
     (let db1 = db\<lparr>status := (status db)(userId \<mapsto> state)\<rparr>
      in notify db1 userId (listeners db1))"

definition emptyRtdb :: rtdb where
  "emptyRtdb = \<lparr>status = Map.empty, listeners = [], presenceData = (\<lambda>_. Map.empty),
     delivered = [], nextSubscription = 0\<rparr>"

section \<open>Sorting with a comparator\<close>

text \<open>
  \<^verbatim>\<open>Array.prototype.sort(compareFn)\<close> puts \<open>a\<close> before \<open>b\<close> when
  \<open>compareFn(a, b) < 0\<close>, \<open>b\<close> before \<open>a\<close> when it is positive, and keeps the
  order of the array when it is 0 (the sort is stable since ECMAScript 2019). For a
  consistent comparator that fixes the result; insertion from the right computes it.
  For a comparator that is not consistent ECMAScript leaves the order to the
  implementation, and \<open>sortWith\<close> does not stand for it: it is used on consistent
  comparators only, and every theorem on a sorted result proves the comparator
  consistent on the list sorted.
\<close>

fun insertWith :: "('a \<Rightarrow> 'a \<Rightarrow> int) \<Rightarrow> 'a \<Rightarrow> 'a list \<Rightarrow> 'a list" where
  "insertWith compareFn x [] = [x]"
| "insertWith compareFn x (y # ys) =
     (if compareFn x y \<le> 0 then x # y # ys else y # insertWith compareFn x ys)"

fun sortWith :: "('a \<Rightarrow> 'a \<Rightarrow> int) \<Rightarrow> 'a list \<Rightarrow> 'a list" where
  "sortWith compareFn [] = []"
| "sortWith compareFn (x # xs) = insertWith compareFn x (sortWith compareFn xs)"

section \<open>ConversationLedger: the subscription of a user\<close>

text \<open>
  \<^verbatim>\<open>
  export const getUserChatsWithCounts = (userId, callback) => {
    const q = query(chatsRef, where('participants', 'array-contains', userId));
    return onSnapshot(q, (snapshot) => {
      const chats = snapshot.docs.map(doc => {
        const data = doc.data();
        return { id: doc.id, ...data, unreadCount: data[`unreadCount_${userId}`] || 0 };
      }).sort((a, b) => {
        if (!a.lastMessageTimestamp && !b.lastMessageTimestamp) return 0;
        if (!a.lastMessageTimestamp) return 1;
        if (!b.lastMessageTimestamp) return -1;
        const aTime = ...toDate(); const bTime = ...toDate();
        return bTime - aTime;
      });
      callback(chats);
    }, ...);
  };
  \<close>
  \<open>getUserChatsWithCounts st userId\<close> is the list that the callback receives for
  the snapshot of the store \<open>st\<close>.
\<close>

record chat_row = chat_doc +
  row_id :: jsstring
  row_unreadCount :: nat

definition toRow :: "jsstring \<Rightarrow> jsstring \<times> chat_doc \<Rightarrow> chat_row" where
  "toRow userId d =
     chat_doc.extend (snd d)
       (chat_row.fields (fst d) (counterOrZero (snd d) userId))"

definition compareRows :: "chat_row \<Rightarrow> chat_row \<Rightarrow> int" where
  "compareRows a b =
     (if lastMessageTimestamp a = None \<and> lastMessageTimestamp b = None then 0
      else case lastMessageTimestamp a of
        None \<Rightarrow> 1
      | Some aTime \<Rightarrow>
         (case lastMessageTimestamp b of
            None \<Rightarrow> - 1
          | Some bTime \<Rightarrow> int bTime - int aTime))"

definition arrayContains :: "jsstring list option \<Rightarrow> jsstring \<Rightarrow> bool" where
  "arrayContains field v = (case field of None \<Rightarrow> False | Some xs \<Rightarrow> v \<in> set xs)"

definition getUserChatsWithCounts :: "store \<Rightarrow> jsstring \<Rightarrow> chat_row list" where
  "getUserChatsWithCounts st userId =
     sortWith compareRows
       (map (toRow userId)
          (filter (\<lambda>d. arrayContains (participants (snd d)) userId) (chats st)))"

section \<open>ConversationRanker: \<^verbatim>\<open>filteredUsers\<close> (Components/Messages.jsx)\<close>

text \<open>
  A user document, with the fields the list reads, and the entry that the
  \<^verbatim>\<open>map\<close> of \<^verbatim>\<open>filteredUsers\<close> builds from it:
  \<^verbatim>\<open>
  const otherUsers = users.filter(user => user.id !== currentUser?.uid).map(user => {
    const chatId = createChatId(currentUser?.uid || '', user.id);
    const unreadCount = chatCounts[chatId]?.unreadCount || 0;
    const lastMessageTime = chatCounts[chatId]?.lastMessageTimestamp;
    return { ...user, isOnline: userPresence[user.id] || false, unreadCount,
             lastMessageTime, lastMessage: chatCounts[chatId]?.lastMessage || null };
  });
  \<close>
  \<open>createdAt\<close> is the time of the account's creation in milliseconds.
\<close>

record user =
  user_id :: jsstring
  displayName :: jsstring
  createdAt :: nat

record entry = user +
  isOnline :: bool
  entry_unreadCount :: nat
  lastMessageTime :: "nat option"
  entry_lastMessage :: "jsstring option"

definition toEntry ::
  "jsstring option \<Rightarrow> (jsstring \<rightharpoonup> bool) \<Rightarrow> (jsstring \<rightharpoonup> chat_row) \<Rightarrow> user \<Rightarrow> entry" where
  "toEntry currentUid userPresence chatCounts u =
     (let chatId = createChatId (case currentUid of None \<Rightarrow> [] | Some uid \<Rightarrow> uid) (user_id u);
          unread = (case chatCounts chatId of None \<Rightarrow> 0 | Some row \<Rightarrow> row_unreadCount row);
          lastTime =
            (case chatCounts chatId of None \<Rightarrow> None | Some row \<Rightarrow> lastMessageTimestamp row)
      in user.extend u
           (entry.fields
              (case userPresence (user_id u) of None \<Rightarrow> False | Some online \<Rightarrow> online)
              unread
              lastTime
              (case chatCounts chatId of
                 None \<Rightarrow> None
               | Some row \<Rightarrow>
                   (case lastMessage row of
                      None \<Rightarrow> None
                    | Some text \<Rightarrow> if text = [] then None else Some text))))"

text \<open>
  The comparator of \<^verbatim>\<open>filteredUsers\<close>, rule by rule; a rule returns \<open>None\<close>
  where the code falls through to the next one. \<open>selected\<close> and \<open>active\<close> are
  the state variables \<^verbatim>\<open>selectedChat\<close> and \<^verbatim>\<open>isActivelyChatting\<close>.
  \<^verbatim>\<open>
  const isASelected = a.id === selectedChat;
  const isBSelected = b.id === selectedChat;
  if (isActivelyChatting) {
    if (isASelected && !isBSelected) return -1;
    if (isBSelected && !isASelected) return 1;
  } else {
    if (isASelected && !isBSelected && a.lastMessageTime) return -1;
    if (isBSelected && !isASelected && b.lastMessageTime) return 1;
  }
  if (!isASelected && !isBSelected) {
    if (a.unreadCount > 0 && b.unreadCount === 0) return -1;
    if (a.unreadCount === 0 && b.unreadCount > 0) return 1;
  }
  if (a.lastMessageTime && b.lastMessageTime) {
    if (aTime > bTime) return -1;
    if (aTime < bTime) return 1;
  }
  if (a.lastMessageTime && !b.lastMessageTime) return -1;
  if (!a.lastMessageTime && b.lastMessageTime) return 1;
  if (a.isOnline && !b.isOnline) return -1;
  if (!a.isOnline && b.isOnline) return 1;
  return bCreated - aCreated;
  \<close>
\<close>

definition pinRule :: "jsstring option \<Rightarrow> bool \<Rightarrow> entry \<Rightarrow> entry \<Rightarrow> int option" where
  "pinRule selected active a b =
     (let isASelected = (Some (user_id a) = selected);
          isBSelected = (Some (user_id b) = selected)
      in if active then
           (if isASelected \<and> \<not> isBSelected then Some (- 1)
            else if isBSelected \<and> \<not> isASelected then Some 1
            else None)
         else
           (if isASelected \<and> \<not> isBSelected \<and> lastMessageTime a \<noteq> None then Some (- 1)
            else if isBSelected \<and> \<not> isASelected \<and> lastMessageTime b \<noteq> None then Some 1
            else None))"

definition unreadRule :: "jsstring option \<Rightarrow> entry \<Rightarrow> entry \<Rightarrow> int option" where
  "unreadRule selected a b =
     (if Some (user_id a) \<noteq> selected \<and> Some (user_id b) \<noteq> selected then
        (if entry_unreadCount a > 0 \<and> entry_unreadCount b = 0 then Some (- 1)
         else if entry_unreadCount a = 0 \<and> entry_unreadCount b > 0 then Some 1
         else None)
      else None)"

definition recencyRule :: "entry \<Rightarrow> entry \<Rightarrow> int option" where
  "recencyRule a b =
     (case (lastMessageTime a, lastMessageTime b) of
        (Some aTime, Some bTime) \<Rightarrow>
          if aTime > bTime then Some (- 1) else if aTime < bTime then Some 1 else None
      | (Some aTime, None) \<Rightarrow> Some (- 1)
      | (None, Some bTime) \<Rightarrow> Some 1
      | (None, None) \<Rightarrow> None)"

definition presenceRule :: "entry \<Rightarrow> entry \<Rightarrow> int option" where
  "presenceRule a b =
     (if isOnline a \<and> \<not> isOnline b then Some (- 1)
      else if \<not> isOnline a \<and> isOnline b then Some 1
      else None)"

definition compareEntries :: "jsstring option \<Rightarrow> bool \<Rightarrow> entry \<Rightarrow> entry \<Rightarrow> int" where
  "compareEntries selected active a b =
     (case pinRule selected active a b of
        Some r \<Rightarrow> r
      | None \<Rightarrow>
         (case unreadRule selected a b of
            Some r \<Rightarrow> r
          | None \<Rightarrow>
             (case recencyRule a b of
                Some r \<Rightarrow> r
              | None \<Rightarrow>
                 (case presenceRule a b of
                    Some r \<Rightarrow> r
                  | None \<Rightarrow> int (createdAt b) - int (createdAt a)))))"

definition otherUsers ::
  "user list \<Rightarrow> jsstring option \<Rightarrow> (jsstring \<rightharpoonup> bool) \<Rightarrow> (jsstring \<rightharpoonup> chat_row) \<Rightarrow> entry list" where
  "otherUsers users currentUid userPresence chatCounts =
     map (toEntry currentUid userPresence chatCounts)
       (filter (\<lambda>u. Some (user_id u) \<noteq> currentUid) users)"

definition filteredUsers ::
  "user list \<Rightarrow> jsstring option \<Rightarrow> (jsstring \<rightharpoonup> bool) \<Rightarrow> (jsstring \<rightharpoonup> chat_row)
     \<Rightarrow> jsstring option \<Rightarrow> bool \<Rightarrow> entry list" where
  "filteredUsers users currentUid userPresence chatCounts selected active =
     sortWith (compareEntries selected active)
       (otherUsers users currentUid userPresence chatCounts)"

text \<open>
  The order that the rules of the ranker describe, as a lexicographic key (smaller keys
  first): the pin, unread messages, having a last message, its recency, presence, the age
  of the account. A conversation is pinned when it is the selected one and the list is
  in active mode or the conversation has a last message. This definition follows the
  description of the ranker, not the code; it is compared with the comparator below.
\<close>

definition pinned :: "jsstring option \<Rightarrow> bool \<Rightarrow> entry \<Rightarrow> bool" where
  "pinned selected active e \<longleftrightarrow>
     Some (user_id e) = selected \<and> (active \<or> lastMessageTime e \<noteq> None)"

definition rankKey :: "jsstring option \<Rightarrow> bool \<Rightarrow> entry \<Rightarrow> int list" where
  "rankKey selected active e =
     [if pinned selected active e then 0 else 1,
      if pinned selected active e \<or> (Some (user_id e) \<noteq> selected \<and> entry_unreadCount e > 0)
        then 0 else 1,
      if lastMessageTime e = None then 1 else 0,
      (case lastMessageTime e of None \<Rightarrow> 0 | Some t \<Rightarrow> - int t),
      if isOnline e then 0 else 1,
      - int (createdAt e)]"

text \<open>
  The inputs on which the comparator is consistent: every selected entry is pinned, or
  every other entry with unread messages has a last message (as every ledger document
  has that \<^const>\<open>sendMessage\<close> or \<^const>\<open>sendMediaMessage\<close> wrote).
\<close>

definition consistentInput :: "jsstring option \<Rightarrow> bool \<Rightarrow> entry list \<Rightarrow> bool" where
  "consistentInput selected active es \<longleftrightarrow>
     (\<forall>e\<in>set es. Some (user_id e) = selected \<longrightarrow> pinned selected active e)
     \<or> (\<forall>e\<in>set es. Some (user_id e) \<noteq> selected \<and> entry_unreadCount e > 0
            \<longrightarrow> lastMessageTime e \<noteq> None)"

section \<open>The conversation list of the Messages component\<close>

text \<open>
  The state \<^verbatim>\<open>chatCounts\<close> that \<^verbatim>\<open>filteredUsers\<close> reads is set by the callback
  that the component passes to \<^verbatim>\<open>getUserChatsWithCounts\<close>:
  \<^verbatim>\<open>
  getUserChatsWithCounts(currentUser.uid, (chats) => {
    const chatCountMap = {};
    chats.forEach(chat => {
      const otherUserId = chat.participants.find(id => id !== currentUser.uid);
      if (otherUserId) {
        const chatId = createChatId(currentUser.uid, otherUserId);
        chatCountMap[chatId] = chat;
      }
    });
    setChatCounts(chatCountMap);
  });
  \<close>
  A row without the field \<^verbatim>\<open>participants\<close> would make \<^verbatim>\<open>find\<close> throw, and the
  state would not be set (\<open>None\<close>); \<^verbatim>\<open>if (otherUserId)\<close> skips a missing and an
  empty id. \<open>chatCountsAfter st uid\<close> is the state that the callback sets for the
  snapshot of the store \<open>st\<close>.
\<close>

fun forEachChat ::
  "jsstring \<Rightarrow> chat_row list \<Rightarrow> (jsstring \<rightharpoonup> chat_row) \<Rightarrow> (jsstring \<rightharpoonup> chat_row) option" where
  "forEachChat uid [] chatCountMap = Some chatCountMap"
| "forEachChat uid (chat # rest) chatCountMap =
     (case participants chat of
        None \<Rightarrow> None
      | Some ids \<Rightarrow>
         (case find (\<lambda>i. i \<noteq> uid) ids of
            None \<Rightarrow> forEachChat uid rest chatCountMap
          | Some otherUserId \<Rightarrow>
              if otherUserId = [] then forEachChat uid rest chatCountMap
              else forEachChat uid rest
                     (chatCountMap(createChatId uid otherUserId \<mapsto> chat))))"

definition chatCountsAfter :: "store \<Rightarrow> jsstring \<Rightarrow> (jsstring \<rightharpoonup> chat_row) option" where
  "chatCountsAfter st uid = forEachChat uid (getUserChatsWithCounts st uid) Map.empty"

section \<open>The stores that the code produces\<close>

text \<open>
  The ledger collection is written by \<^verbatim>\<open>sendMessage\<close>, \<^verbatim>\<open>sendMediaMessage\<close>
  and \<^verbatim>\<open>markChatAsRead\<close> only. A store of the running system is reached from the
  empty one by calls of these functions, each with any of its rejections, and by
  single awaited steps of sends that run at the same time.
\<close>

datatype store_op =
    OpSendMessage send_env jsstring jsstring jsstring
  | OpSendMediaMessage send_env jsstring jsstring fileInfo jsstring
  | OpMarkChatAsRead read_fault jsstring jsstring
  | OpSendStep send_call

fun applyOp :: "store \<Rightarrow> store_op \<Rightarrow> store" where
  "applyOp st (OpSendMessage env sender receiver content) =
     snd (sendMessage st env sender receiver content)"
| "applyOp st (OpSendMediaMessage env sender receiver info messageType) =
     snd (sendMediaMessage st env sender receiver info messageType)"
| "applyOp st (OpMarkChatAsRead f chatId userId) = markChatAsRead st f chatId userId"
| "applyOp st (OpSendStep c) = fst (sendStep st c)"

fun runOps :: "store \<Rightarrow> store_op list \<Rightarrow> store" where
  "runOps st [] = st"
| "runOps st (a # rest) = runOps (applyOp st a) rest"

text \<open>
  What all of these writes keep: a ledger document in which some counter is positive
  has a \<^verbatim>\<open>lastMessageTimestamp\<close>, since a positive counter is only written by the
  merge that also writes the timestamp.
\<close>

definition timestamped :: "chat_doc \<Rightarrow> bool" where
  "timestamped d \<longleftrightarrow>
     (\<forall>u n. unreadCount_of d u = Some n \<longrightarrow> 0 < n \<longrightarrow> lastMessageTimestamp d \<noteq> None)"

definition ledgerInvariant :: "store \<Rightarrow> bool" where
  "ledgerInvariant st \<longleftrightarrow> (\<forall>d\<in>set (chats st). timestamped (snd d))"

text \<open>The same for a row of the subscription, which holds the counter of its user.\<close>

definition rowTimestamped :: "chat_row \<Rightarrow> bool" where
  "rowTimestamped r \<longleftrightarrow> (0 < row_unreadCount r \<longrightarrow> lastMessageTimestamp r \<noteq> None)"

section \<open>Sample data\<close>

text \<open>Concrete inputs on which the theorems below are instantiated.\<close>

definition env0 :: send_env where
  "env0 = \<lparr>fault = NoFault, msgTime = 5, metaTime = 6\<rparr>"

definition catPng :: fileInfo where
  "catPng = \<lparr>file_url = js ''https://x/cat.png'', file_name = js ''cat.png'',
     file_size = 10, file_type = js ''image/png''\<rparr>"

definition twoAppends :: "(send_env \<times> append_body) list" where
  "twoAppends = [(env0, TextBody (js ''hi'')), (env0, MediaBody catPng (js ''image''))]"

definition blankInput :: ui_state where
  "blankInput = \<lparr>newMessage = js ''   '', selectedChat = Some (js ''bob''),
     sendingMessage = False, isActivelyChatting = False\<rparr>"

text \<open>
  Two other users seen by \<^verbatim>\<open>me\<close>: \<^verbatim>\<open>alice\<close> is online, has the newer account,
  and her conversation has three unread messages; the conversation with \<^verbatim>\<open>bob\<close>
  is older and read.
\<close>

definition alice :: user where
  "alice = \<lparr>user_id = js ''alice'', displayName = js ''Alice'', createdAt = 200\<rparr>"

definition bob :: user where
  "bob = \<lparr>user_id = js ''bob'', displayName = js ''Bob'', createdAt = 100\<rparr>"

definition ledgerRow :: "jsstring \<Rightarrow> nat option \<Rightarrow> nat \<Rightarrow> chat_row" where
  "ledgerRow chatId t n =
     \<lparr>participants = None, lastMessage = None, lastMessageTimestamp = t,
      lastMessageSender = None, unreadCount_of = Map.empty,
      row_id = chatId, row_unreadCount = n\<rparr>"

definition sampleCounts :: "jsstring \<rightharpoonup> chat_row" where
  "sampleCounts =
     [js ''alice_me'' \<mapsto> ledgerRow (js ''alice_me'') (Some 50) 3,
      js ''bob_me'' \<mapsto> ledgerRow (js ''bob_me'') (Some 40) 0]"

definition samplePresence :: "jsstring \<rightharpoonup> bool" where
  "samplePresence = [js ''alice'' \<mapsto> True]"

text \<open>
  Three users of whom \<^verbatim>\<open>sam\<close> is selected and has no conversation yet,
  \<^verbatim>\<open>bea\<close> is online, and the row of \<^verbatim>\<open>cy\<close> has unread messages and no
  timestamp.
\<close>

definition sam :: user where
  "sam = \<lparr>user_id = js ''sam'', displayName = js ''Sam'', createdAt = 5\<rparr>"

definition bea :: user where
  "bea = \<lparr>user_id = js ''bea'', displayName = js ''Bea'', createdAt = 3\<rparr>"

definition cy :: user where
  "cy = \<lparr>user_id = js ''cy'', displayName = js ''Cy'', createdAt = 1\<rparr>"

definition cyclicCounts :: "jsstring \<rightharpoonup> chat_row" where
  "cyclicCounts = [js ''cy_me'' \<mapsto> ledgerRow (js ''cy_me'') None 3]"

definition cyclicPresence :: "jsstring \<rightharpoonup> bool" where
  "cyclicPresence = [js ''bea'' \<mapsto> True]"

text \<open>
  A conversation of thirty messages with the timestamps 1 to 30, and two calls of
  \<^verbatim>\<open>sendMessage\<close> from \<^verbatim>\<open>alice\<close> to \<^verbatim>\<open>bob\<close> that run at the same time.
\<close>

definition textAt :: "nat \<Rightarrow> message" where
  "textAt t = \<lparr>msgId = t, senderId = js ''alice'', receiverId = js ''bob'',
     payload = Content (js ''hi''), timestamp = t, read = False\<rparr>"

definition thirtyMessages :: store where
  "thirtyMessages = emptyStore\<lparr>messages := (\<lambda>_. [])(js ''alice_bob'' := map textAt [1..<31]),
     nextId := 31\<rparr>"

definition hi :: send_call where
  "hi = startCall env0 (js ''alice'') (js ''bob'') (js ''hi'')"

definition yo :: send_call where
  "yo = startCall env0 (js ''alice'') (js ''bob'') (js ''yo'')"

text \<open>
  A history seen by \<^verbatim>\<open>me\<close>: \<^verbatim>\<open>alice\<close> sends two messages, \<^verbatim>\<open>bob\<close> sends
  one, which is read.
\<close>

definition sampleOps :: "store_op list" where
  "sampleOps =
     [OpSendMessage \<lparr>fault = NoFault, msgTime = 10, metaTime = 11\<rparr>
        (js ''alice'') (js ''me'') (js ''hi''),
      OpSendMessage \<lparr>fault = NoFault, msgTime = 20, metaTime = 21\<rparr>
        (js ''bob'') (js ''me'') (js ''yo''),
      OpMarkChatAsRead NoReadFault (js ''bob_me'') (js ''me''),
      OpSendMediaMessage \<lparr>fault = NoFault, msgTime = 30, metaTime = 31\<rparr>
        (js ''alice'') (js ''me'') catPng (js ''image'')]"

section \<open>Verification\<close>

subsection \<open>Properties of \<^const>\<open>createChatId\<close>\<close>

lemma js_underscore: "js ''_'' = [0x5F]"
  by (simp add: js_def)

lemma createChatId_min_max:
  "createChatId a b = min a b @ [0x5F] @ max a b"
  by (auto simp: createChatId_def js_underscore min_def max_def)

lemma takeWhile_upto_separator:
  "s \<notin> set x \<Longrightarrow> takeWhile (\<lambda>c. c \<noteq> s) (x @ [s] @ y) = x"
  by (induction x) auto

lemma split_at_separator:
  assumes "x @ [s] @ y = x' @ [s] @ y'" and "s \<notin> set x" and "s \<notin> set x'"
  shows "x = x' \<and> y = y'"
proof -
  have "takeWhile (\<lambda>c. c \<noteq> s) (x @ [s] @ y) = x"
    using assms(2) by (rule takeWhile_upto_separator)
  moreover have "takeWhile (\<lambda>c. c \<noteq> s) (x' @ [s] @ y') = x'"
    using assms(3) by (rule takeWhile_upto_separator)
  ultimately have "x = x'" using assms(1) by simp
  with assms(1) show ?thesis by simp
qed

lemma min_max_determine:
  fixes a b c :: "'a::linorder"
  assumes "min a b = min a c" and "max a b = max a c"
  shows "b = c"
  using assms by (auto simp: min_def max_def split: if_splits)

text \<open>
  Claim C5. The conversation key is symmetric, \<open>key(a,b) = key(b,a)\<close> for all ids, and
  for ids that do not contain the separator \<^verbatim>\<open>_\<close> it is collision-free:
  \<open>key(a,b) \<noteq> key(a,c)\<close> whenever \<open>b \<noteq> c\<close>.
\<close>

theorem createChatId_symmetric_collision_free:
  "createChatId a b = createChatId b a \<and>
   (0x5F \<notin> set a \<and> 0x5F \<notin> set b \<and> 0x5F \<notin> set c \<and> b \<noteq> c
      \<longrightarrow> createChatId a b \<noteq> createChatId a c)"
proof
  show "createChatId a b = createChatId b a"
    by (simp add: createChatId_min_max min.commute max.commute)
next
  show "0x5F \<notin> set a \<and> 0x5F \<notin> set b \<and> 0x5F \<notin> set c \<and> b \<noteq> c
      \<longrightarrow> createChatId a b \<noteq> createChatId a c"
  proof (intro impI notI)
    assume h: "0x5F \<notin> set a \<and> 0x5F \<notin> set b \<and> 0x5F \<notin> set c \<and> b \<noteq> c"
      and eq: "createChatId a b = createChatId a c"
    have nb: "0x5F \<notin> set (min a b)" and nc: "0x5F \<notin> set (min a c)"
      using h by (auto simp: min_def)
    from eq have "min a b @ [0x5F] @ max a b = min a c @ [0x5F] @ max a c"
      by (simp only: createChatId_min_max)
    from split_at_separator [OF this nb nc]
    have "b = c" by (intro min_max_determine [of a b c]) auto
    with h show False by simp
  qed
qed

theorem createChatId_symmetric_collision_free_witness:
  "0x5F \<notin> set (js ''alice'') \<and> 0x5F \<notin> set (js ''bob'') \<and> 0x5F \<notin> set (js ''carol'')
   \<and> js ''bob'' \<noteq> js ''carol''
   \<and> createChatId (js ''alice'') (js ''bob'') = createChatId (js ''bob'') (js ''alice'')
   \<and> createChatId (js ''alice'') (js ''bob'') = js ''alice_bob''
   \<and> createChatId (js ''alice'') (js ''bob'') \<noteq> createChatId (js ''alice'') (js ''carol'')"
proof -
  have h: "0x5F \<notin> set (js ''alice'') \<and> 0x5F \<notin> set (js ''bob'') \<and> 0x5F \<notin> set (js ''carol'')
     \<and> js ''bob'' \<noteq> js ''carol''"
    by (simp add: js_def)
  have e: "createChatId (js ''alice'') (js ''bob'') = js ''alice_bob''"
    by (simp add: js_def createChatId_def)
  from createChatId_symmetric_collision_free [of "js ''alice''" "js ''bob''" "js ''carol''"] h e
  show ?thesis by blast
qed

text \<open>
  The restriction to ids without the separator is needed: with the separator inside an
  id, two different partners of the same user get the same key.
\<close>

lemma createChatId_collision_with_separator:
  "createChatId (js ''A__A'') (js ''_A'') = createChatId (js ''A__A'') (js ''A_'')
   \<and> js ''_A'' \<noteq> js ''A_''"
  by (simp add: js_def createChatId_def)

subsection \<open>Unread counters after sending\<close>

lemma unreadCount_setDoc_merge:
  "unreadCount (setDoc_merge st chatId data) chatId u =
     (case unreadCount_of data u of None \<Rightarrow> unreadCount st chatId u | Some n \<Rightarrow> n)"
  by (simp add: unreadCount_def setDoc_merge_def getDoc_def update_conv' counterOrZero_def
      mergeFields_def map_add_def split: option.splits)

lemma unreadCount_addDoc:
  "unreadCount (addDoc st c m) chatId u = unreadCount st chatId u"
  by (simp add: unreadCount_def addDoc_def getDoc_def)

lemma unreadCount_messages_update:
  "unreadCount (st\<lparr>messages := f\<rparr>) c u = unreadCount st c u"
  by (simp add: unreadCount_def getDoc_def)

lemma sendMessage_counters:
  assumes "sendMessage st env S R content = (True, st')" and "S \<noteq> R"
  shows "unreadCount st' (createChatId S R) R = unreadCount st (createChatId S R) R + 1
       \<and> unreadCount st' (createChatId S R) S = 0"
  using assms
  by (auto simp: sendMessage_def Let_def unreadCount_setDoc_merge ledgerUpdate_def
      unreadCount_addDoc unreadCount_def[symmetric] split: if_splits)

lemma sendMediaMessage_counters:
  assumes "sendMediaMessage st env S R info ty = (True, st')" and "S \<noteq> R"
  shows "unreadCount st' (createChatId S R) R = unreadCount st (createChatId S R) R + 1
       \<and> unreadCount st' (createChatId S R) S = 0"
  using assms
  by (auto simp: sendMediaMessage_def Let_def unreadCount_setDoc_merge ledgerUpdate_def
      unreadCount_addDoc unreadCount_def[symmetric] split: if_splits)

lemma channelAppend_counters:
  assumes "channelAppend st env S R body = (True, st')" and "S \<noteq> R"
  shows "unreadCount st' (createChatId S R) R = unreadCount st (createChatId S R) R + 1
       \<and> unreadCount st' (createChatId S R) S = 0"
  using assms by (cases body) (simp_all add: sendMessage_counters sendMediaMessage_counters)

text \<open>
  The sender and the receiver have to be two users: in a message to oneself the two
  counter fields are the same field, and the reset, written last, wins.
\<close>

lemma sendMessage_to_self:
  "sendMessage st env S S content = (True, st') \<Longrightarrow> unreadCount st' (createChatId S S) S = 0"
  by (auto simp: sendMessage_def Let_def unreadCount_setDoc_merge ledgerUpdate_def
      split: if_splits)

text \<open>
  Every successful append adds one to the receiver's counter, whatever it was, and
  leaves the sender's counter at 0.
\<close>

lemma appends_counters:
  assumes "appends st S R reqs = (oks, st')" and "\<forall>ok\<in>set oks. ok" and "S \<noteq> R"
  shows "unreadCount st' (createChatId S R) R
           = unreadCount st (createChatId S R) R + length reqs
       \<and> unreadCount st' (createChatId S R) S
           = (if reqs = [] then unreadCount st (createChatId S R) S else 0)"
  using assms
proof (induction reqs arbitrary: st oks)
  case Nil
  then show ?case by simp
next
  case (Cons r rest)
  obtain env body where r: "r = (env, body)" by (cases r)
  obtain ok st1 where a: "channelAppend st env S R body = (ok, st1)"
    by (cases "channelAppend st env S R body")
  obtain oks' st2 where b: "appends st1 S R rest = (oks', st2)"
    by (cases "appends st1 S R rest")
  from Cons.prems(1) r a b have oks: "oks = ok # oks'" and st': "st2 = st'" by auto
  note b = b [unfolded st']
  from Cons.prems(2) oks have ok: "ok" and oks': "\<forall>ok\<in>set oks'. ok" by auto
  from a ok have "channelAppend st env S R body = (True, st1)" by simp
  note step = channelAppend_counters [OF this \<open>S \<noteq> R\<close>]
  note ih = Cons.IH [OF b oks' \<open>S \<noteq> R\<close>]
  show ?case
  proof (cases "rest = []")
    case True
    with step ih show ?thesis by simp
  next
    case False
    with step ih show ?thesis by simp
  qed
qed

text \<open>
  Claim C1. For a sender \<open>S\<close> and a different receiver \<open>R\<close> whose counter is 0 (a
  new conversation, or one that \<open>R\<close> has read), after \<open>N\<close> successful appends from
  \<open>S\<close> to \<open>R\<close>, run one after the other with nothing in between, the ledger entry
  of the pair has \<open>unreadCount[R] = N\<close> and, once a message was sent,
  \<open>unreadCount[S] = 0\<close>.
\<close>

theorem appends_unread_counters:
  assumes "S \<noteq> R"
    and "unreadCount st (createChatId S R) R = 0"
    and "appends st S R reqs = (oks, st')"
    and "\<forall>ok\<in>set oks. ok"
  shows "unreadCount st' (createChatId S R) R = length reqs
       \<and> (reqs \<noteq> [] \<longrightarrow> unreadCount st' (createChatId S R) S = 0)"
  using appends_counters [OF assms(3,4,1)] assms(2) by simp

theorem appends_unread_counters_witness:
  "js ''alice'' \<noteq> js ''bob''
   \<and> unreadCount emptyStore (createChatId (js ''alice'') (js ''bob'')) (js ''bob'') = 0
   \<and> fst (appends emptyStore (js ''alice'') (js ''bob'') twoAppends) = [True, True]
   \<and> unreadCount (snd (appends emptyStore (js ''alice'') (js ''bob'') twoAppends))
        (createChatId (js ''alice'') (js ''bob'')) (js ''bob'') = 2
   \<and> unreadCount (snd (appends emptyStore (js ''alice'') (js ''bob'') twoAppends))
        (createChatId (js ''alice'') (js ''bob'')) (js ''alice'') = 0"
  using appends_unread_counters [of "js ''alice''" "js ''bob''" emptyStore twoAppends
      "fst (appends emptyStore (js ''alice'') (js ''bob'') twoAppends)"
      "snd (appends emptyStore (js ''alice'') (js ''bob'') twoAppends)"]
  by (simp add: js_def twoAppends_def env0_def emptyStore_def unreadCount_def getDoc_def
      emptyDoc_def counterOrZero_def sendMessage_def sendMediaMessage_def Let_def)

subsection \<open>Blank text bodies\<close>

text \<open>
  \<^const>\<open>sendMessage\<close> has no check of its own: a body of white space is trimmed to
  the empty string, stored as a message, and counted in the ledger.
\<close>

theorem sendMessage_blank_is_written:
  "trim (js ''   '') = []
   \<and> fst (sendMessage emptyStore env0 (js ''alice'') (js ''bob'') (js ''   '')) = True
   \<and> messages emptyStore (js ''alice_bob'') = []
   \<and> map payload (messages (snd (sendMessage emptyStore env0 (js ''alice'') (js ''bob'')
        (js ''   ''))) (js ''alice_bob'')) = [Content []]
   \<and> unreadCount emptyStore (js ''alice_bob'') (js ''bob'') = 0
   \<and> unreadCount (snd (sendMessage emptyStore env0 (js ''alice'') (js ''bob'') (js ''   '')))
        (js ''alice_bob'') (js ''bob'') = 1"
  by (simp add: js_def trim_def isWhiteSpace_def sendMessage_def Let_def env0_def
      emptyStore_def createChatId_def addDoc_def getDoc_def setDoc_merge_def unreadCount_def
      counterOrZero_def emptyDoc_def ledgerUpdate_def mergeFields_def)

text \<open>
  Claim C3, as the code has it. The check is made by the caller: for every input that
  is empty after trimming, \<^const>\<open>handleSendMessage\<close> returns before it calls
  \<^const>\<open>sendMessage\<close>; no message is written, and neither the ledger nor the state of
  the component changes.
\<close>

theorem handleSendMessage_rejects_blank:
  "trim (newMessage ui) = [] \<Longrightarrow> handleSendMessage (ui, st) env currentUser = (ui, st)"
  by (simp add: handleSendMessage_def split: option.splits)

theorem handleSendMessage_rejects_blank_witness:
  "trim (newMessage blankInput) = []
   \<and> handleSendMessage (blankInput, emptyStore) env0 (Some (js ''alice''))
       = (blankInput, emptyStore)"
proof -
  have h: "trim (newMessage blankInput) = []"
    by (simp add: blankInput_def js_def trim_def isWhiteSpace_def)
  from h handleSendMessage_rejects_blank [OF h, of emptyStore env0 "Some (js ''alice'')"]
  show ?thesis by simp
qed

subsection \<open>Marking a conversation as read\<close>

lemma mergeFields_counterReset_twice:
  "mergeFields (mergeFields d (counterReset u)) (counterReset u) = mergeFields d (counterReset u)"
  by (simp add: mergeFields_def counterReset_def emptyDoc_def)

lemma setDoc_merge_counterReset_twice:
  "setDoc_merge (setDoc_merge st c (counterReset u)) c (counterReset u)
     = setDoc_merge st c (counterReset u)"
  by (simp add: setDoc_merge_def getDoc_def update_conv' mergeFields_counterReset_twice)

lemma messages_setDoc_merge: "messages (setDoc_merge st c d) = messages st"
  by (simp add: setDoc_merge_def)

lemma setDoc_merge_messages_update:
  "setDoc_merge (st\<lparr>messages := f\<rparr>) c d = (setDoc_merge st c d)\<lparr>messages := f\<rparr>"
  by (simp add: setDoc_merge_def getDoc_def)

lemma unreadFor_marked:
  "unreadFor u (map (\<lambda>m. if msgId m \<in> msgId ` set (unreadFor u ms) then m\<lparr>read := True\<rparr> else m)
     ms) = []"
  by (auto simp: unreadFor_def filter_empty_conv)

lemma markChatAsRead_NoReadFault:
  "markChatAsRead st NoReadFault c u =
     (setDoc_merge st c (counterReset u))\<lparr>messages := (messages st)(c :=
        map (\<lambda>m. if msgId m \<in> msgId ` set (unreadFor u (messages st c))
                  then m\<lparr>read := True\<rparr> else m)
          (messages st c))\<rparr>"
  by (simp add: markChatAsRead_def Let_def messages_setDoc_merge)

text \<open>
  Claim C4. For every user \<open>R\<close> and conversation, after \<open>markRead(R, conv)\<close> the
  ledger has \<open>unreadCount[R] = 0\<close>, and a second call from the state the first one
  left changes nothing.
\<close>

theorem markChatAsRead_resets_and_idempotent:
  "unreadCount (markChatAsRead st NoReadFault chatId R) chatId R = 0
   \<and> markChatAsRead (markChatAsRead st NoReadFault chatId R) NoReadFault chatId R
       = markChatAsRead st NoReadFault chatId R"
proof
  show "unreadCount (markChatAsRead st NoReadFault chatId R) chatId R = 0"
    by (simp add: markChatAsRead_NoReadFault unreadCount_messages_update
        unreadCount_setDoc_merge counterReset_def)
next
  show "markChatAsRead (markChatAsRead st NoReadFault chatId R) NoReadFault chatId R
       = markChatAsRead st NoReadFault chatId R"
    by (simp add: markChatAsRead_NoReadFault setDoc_merge_messages_update
        setDoc_merge_counterReset_twice messages_setDoc_merge unreadFor_marked)
qed

subsection \<open>Sorting with a comparator\<close>

lemma set_insertWith: "set (insertWith c x xs) = insert x (set xs)"
  by (induction xs) auto

lemma set_sortWith: "set (sortWith c xs) = set xs"
  by (induction xs) (auto simp: set_insertWith)

lemma mset_insertWith: "mset (insertWith c x xs) = add_mset x (mset xs)"
  by (induction xs) auto

lemma mset_sortWith: "mset (sortWith c xs) = mset xs"
  by (induction xs) (auto simp: mset_insertWith)

lemma sorted_wrt_insertWith:
  assumes "sorted_wrt (\<lambda>a b. c a b \<le> 0) xs"
    and total: "\<And>y. y \<in> set xs \<Longrightarrow> c x y \<le> 0 \<or> c y x \<le> 0"
    and trans: "\<And>y z. y \<in> set xs \<Longrightarrow> z \<in> set xs \<Longrightarrow> c x y \<le> 0 \<Longrightarrow> c y z \<le> 0 \<Longrightarrow> c x z \<le> 0"
  shows "sorted_wrt (\<lambda>a b. c a b \<le> 0) (insertWith c x xs)"
  using assms
proof (induction xs)
  case Nil
  then show ?case by simp
next
  case (Cons y ys)
  from Cons.prems(1) have tail: "sorted_wrt (\<lambda>a b. c a b \<le> 0) ys"
    and head: "\<forall>z\<in>set ys. c y z \<le> 0" by simp_all
  show ?case
  proof (cases "c x y \<le> 0")
    case True
    have "\<forall>z\<in>set ys. c x z \<le> 0"
    proof
      fix z assume z: "z \<in> set ys"
      with head have "c y z \<le> 0" by simp
      with True z show "c x z \<le> 0" using Cons.prems(3) [of y z] by simp
    qed
    with True Cons.prems(1) show ?thesis by simp
  next
    case False
    with Cons.prems(2) [of y] have yx: "c y x \<le> 0" by simp
    have "sorted_wrt (\<lambda>a b. c a b \<le> 0) (insertWith c x ys)"
    proof (rule Cons.IH [OF tail])
      fix z assume "z \<in> set ys"
      then show "c x z \<le> 0 \<or> c z x \<le> 0" using Cons.prems(2) [of z] by simp
    next
      fix z w assume "z \<in> set ys" "w \<in> set ys" "c x z \<le> 0" "c z w \<le> 0"
      then show "c x w \<le> 0" using Cons.prems(3) [of z w] by simp
    qed
    with False yx head show ?thesis by (simp add: set_insertWith)
  qed
qed

lemma sorted_wrt_sortWith:
  assumes total: "\<And>x y. x \<in> set xs \<Longrightarrow> y \<in> set xs \<Longrightarrow> c x y \<le> 0 \<or> c y x \<le> 0"
    and trans: "\<And>x y z. x \<in> set xs \<Longrightarrow> y \<in> set xs \<Longrightarrow> z \<in> set xs
                  \<Longrightarrow> c x y \<le> 0 \<Longrightarrow> c y z \<le> 0 \<Longrightarrow> c x z \<le> 0"
  shows "sorted_wrt (\<lambda>a b. c a b \<le> 0) (sortWith c xs)"
  using assms
proof (induction xs)
  case Nil
  show ?case by simp
next
  case (Cons x xs)
  have ih: "sorted_wrt (\<lambda>a b. c a b \<le> 0) (sortWith c xs)"
  proof (rule Cons.IH)
    fix a b assume "a \<in> set xs" "b \<in> set xs"
    then show "c a b \<le> 0 \<or> c b a \<le> 0" using Cons.prems(1) [of a b] by simp
  next
    fix a b d assume "a \<in> set xs" "b \<in> set xs" "d \<in> set xs" "c a b \<le> 0" "c b d \<le> 0"
    then show "c a d \<le> 0" using Cons.prems(2) [of a b d] by simp
  qed
  have "sorted_wrt (\<lambda>a b. c a b \<le> 0) (insertWith c x (sortWith c xs))"
  proof (rule sorted_wrt_insertWith [OF ih])
    fix y assume "y \<in> set (sortWith c xs)"
    then show "c x y \<le> 0 \<or> c y x \<le> 0" using Cons.prems(1) [of x y] by (simp add: set_sortWith)
  next
    fix y z assume "y \<in> set (sortWith c xs)" "z \<in> set (sortWith c xs)" "c x y \<le> 0" "c y z \<le> 0"
    then show "c x z \<le> 0" using Cons.prems(2) [of x y z] by (simp add: set_sortWith)
  qed
  then show ?case by simp
qed

subsection \<open>The order of the ledger subscription\<close>

lemma compareRows_total: "compareRows a b \<le> 0 \<or> compareRows b a \<le> 0"
  by (auto simp: compareRows_def split: option.splits)

lemma compareRows_trans:
  "compareRows a b \<le> 0 \<Longrightarrow> compareRows b c \<le> 0 \<Longrightarrow> compareRows a c \<le> 0"
  by (auto simp: compareRows_def split: option.splits if_splits)

lemma compareRows_le_iff:
  "compareRows a b \<le> 0 \<longleftrightarrow>
     (case lastMessageTimestamp b of None \<Rightarrow> True
      | Some bTime \<Rightarrow> (case lastMessageTimestamp a of None \<Rightarrow> False | Some aTime \<Rightarrow> bTime \<le> aTime))"
  by (auto simp: compareRows_def split: option.splits)

text \<open>
  Claim C10. The list that \<^const>\<open>getUserChatsWithCounts\<close> delivers holds the ledger
  entries of the user sorted by \<open>lastMessageTimestamp\<close>, latest first, and the
  entries without a timestamp come after all entries with one: of two entries, when the
  later one in the list has a timestamp, the earlier one has a timestamp that is at
  least as late.
\<close>

theorem getUserChatsWithCounts_sorted:
  "sorted_wrt (\<lambda>a b. case lastMessageTimestamp b of None \<Rightarrow> True
      | Some bTime \<Rightarrow> (case lastMessageTimestamp a of None \<Rightarrow> False | Some aTime \<Rightarrow> bTime \<le> aTime))
     (getUserChatsWithCounts st userId)
   \<and> mset (getUserChatsWithCounts st userId)
       = mset (map (toRow userId)
           (filter (\<lambda>d. arrayContains (participants (snd d)) userId) (chats st)))"
proof
  have "sorted_wrt (\<lambda>a b. compareRows a b \<le> 0) (getUserChatsWithCounts st userId)"
    unfolding getUserChatsWithCounts_def
  proof (rule sorted_wrt_sortWith)
    fix x y :: chat_row
    show "compareRows x y \<le> 0 \<or> compareRows y x \<le> 0" by (rule compareRows_total)
  next
    fix x y z :: chat_row
    assume "compareRows x y \<le> 0" "compareRows y z \<le> 0"
    then show "compareRows x z \<le> 0" by (rule compareRows_trans)
  qed
  then show "sorted_wrt (\<lambda>a b. case lastMessageTimestamp b of None \<Rightarrow> True
      | Some bTime \<Rightarrow> (case lastMessageTimestamp a of None \<Rightarrow> False | Some aTime \<Rightarrow> bTime \<le> aTime))
     (getUserChatsWithCounts st userId)"
    by (simp add: compareRows_le_iff)
next
  show "mset (getUserChatsWithCounts st userId)
       = mset (map (toRow userId)
           (filter (\<lambda>d. arrayContains (participants (snd d)) userId) (chats st)))"
    by (simp add: getUserChatsWithCounts_def mset_sortWith)
qed

subsection \<open>The ranker\<close>

lemmas rules = compareEntries_def pinRule_def unreadRule_def recencyRule_def presenceRule_def

text \<open>
  On consistent input the comparator is the order of \<^const>\<open>rankKey\<close>.
\<close>

lemma compareEntries_le_iff1:
  assumes "Some (user_id a) = sel \<longrightarrow> pinned sel act a" "Some (user_id b) = sel \<longrightarrow> pinned sel act b"
  shows "compareEntries sel act a b \<le> 0 \<longleftrightarrow> rankKey sel act a \<le> rankKey sel act b"
  using assms
  by (auto simp: rules pinned_def rankKey_def Let_def split: option.splits if_splits)

lemma compareEntries_le_iff2:
  assumes "Some (user_id a) \<noteq> sel \<and> entry_unreadCount a > 0 \<longrightarrow> lastMessageTime a \<noteq> None"
          "Some (user_id b) \<noteq> sel \<and> entry_unreadCount b > 0 \<longrightarrow> lastMessageTime b \<noteq> None"
  shows "compareEntries sel act a b \<le> 0 \<longleftrightarrow> rankKey sel act a \<le> rankKey sel act b"
  using assms
  by (auto simp: rules pinned_def rankKey_def Let_def split: option.splits if_splits)



lemma insertWith_eq_insort_key:
  "\<forall>y\<in>set ys. c x y \<le> 0 \<longleftrightarrow> k x \<le> k y \<Longrightarrow> insertWith c x ys = insort_key k x ys"
  by (induction ys) auto

lemma sortWith_eq_sort_key:
  "\<forall>x\<in>set xs. \<forall>y\<in>set xs. c x y \<le> 0 \<longleftrightarrow> k x \<le> k y \<Longrightarrow> sortWith c xs = sort_key k xs"
proof (induction xs)
  case Nil
  show ?case by simp
next
  case (Cons x xs)
  then have "sortWith c xs = sort_key k xs" by simp
  moreover have "\<forall>y\<in>set (sort_key k xs). c x y \<le> 0 \<longleftrightarrow> k x \<le> k y"
    using Cons.prems by simp
  ultimately show ?case by (simp add: insertWith_eq_insort_key)
qed

lemma compareEntries_le_iff:
  assumes "consistentInput sel act es" and "a \<in> set es" and "b \<in> set es"
  shows "compareEntries sel act a b \<le> 0 \<longleftrightarrow> rankKey sel act a \<le> rankKey sel act b"
proof -
  from assms(1) consider
      (pin) "\<forall>e\<in>set es. Some (user_id e) = sel \<longrightarrow> pinned sel act e"
    | (led) "\<forall>e\<in>set es. Some (user_id e) \<noteq> sel \<and> entry_unreadCount e > 0
            \<longrightarrow> lastMessageTime e \<noteq> None"
    unfolding consistentInput_def by blast
  then show ?thesis
  proof cases
    case pin
    with assms(2,3) show ?thesis by (intro compareEntries_le_iff1) blast+
  next
    case led
    with assms(2,3) show ?thesis by (intro compareEntries_le_iff2) blast+
  qed
qed

text \<open>
  On consistent input the comparator is the total preorder of \<^const>\<open>rankKey\<close> and the
  result is the stable sort of the list by that key.
\<close>

lemma filteredUsers_sort_by_rankKey:
  assumes "consistentInput selected active (otherUsers users currentUid userPresence chatCounts)"
  shows "filteredUsers users currentUid userPresence chatCounts selected active
           = sort_key (rankKey selected active) (otherUsers users currentUid userPresence chatCounts)
       \<and> (\<forall>a\<in>set (otherUsers users currentUid userPresence chatCounts).
           \<forall>b\<in>set (otherUsers users currentUid userPresence chatCounts).
             compareEntries selected active a b \<le> 0
               \<longleftrightarrow> rankKey selected active a \<le> rankKey selected active b)"
proof -
  let ?es = "otherUsers users currentUid userPresence chatCounts"
  have iff: "\<forall>a\<in>set ?es. \<forall>b\<in>set ?es.
      compareEntries selected active a b \<le> 0 \<longleftrightarrow> rankKey selected active a \<le> rankKey selected active b"
    using compareEntries_le_iff [OF assms] by blast
  then have "sortWith (compareEntries selected active) ?es = sort_key (rankKey selected active) ?es"
    by (rule sortWith_eq_sort_key)
  with iff show ?thesis by (simp add: filteredUsers_def)
qed

text \<open>
  In active mode the selected conversation wins every comparison with another one, so
  it ends up at the head.
\<close>

lemma insertWith_selected_first:
  assumes "P x \<or> (ys \<noteq> [] \<and> P (hd ys))"
    and "\<And>a b. P a \<Longrightarrow> \<not> P b \<Longrightarrow> c a b \<le> 0"
    and "\<And>a b. \<not> P a \<Longrightarrow> P b \<Longrightarrow> \<not> c a b \<le> 0"
  shows "insertWith c x ys \<noteq> [] \<and> P (hd (insertWith c x ys))"
proof (cases ys)
  case Nil
  with assms(1) show ?thesis by simp
next
  case (Cons y ys')
  show ?thesis
  proof (cases "c x y \<le> 0")
    case True
    with assms(3) [of x y] have "P x \<or> \<not> P y" by blast
    with assms(1) Cons have "P x" by auto
    with True Cons show ?thesis by simp
  next
    case False
    with assms(2) [of x y] have "\<not> P x \<or> P y" by blast
    with assms(1) Cons have "P y" by auto
    with False Cons show ?thesis by simp
  qed
qed

lemma sortWith_selected_first:
  assumes "\<exists>x\<in>set xs. P x"
    and "\<And>a b. P a \<Longrightarrow> \<not> P b \<Longrightarrow> c a b \<le> 0"
    and "\<And>a b. \<not> P a \<Longrightarrow> P b \<Longrightarrow> \<not> c a b \<le> 0"
  shows "sortWith c xs \<noteq> [] \<and> P (hd (sortWith c xs))"
  using assms(1)
proof (induction xs)
  case Nil
  then show ?case by simp
next
  case (Cons x xs)
  show ?case
  proof (cases "P x")
    case True
    then show ?thesis using insertWith_selected_first [of P x "sortWith c xs" c] assms(2,3) by simp
  next
    case False
    with Cons.prems have "\<exists>x\<in>set xs. P x" by simp
    then have "sortWith c xs \<noteq> [] \<and> P (hd (sortWith c xs))" by (rule Cons.IH)
    then show ?thesis using insertWith_selected_first [of P x "sortWith c xs" c] assms(2,3) by simp
  qed
qed

lemma user_id_toEntry: "user_id (toEntry cu pres counts u) = user_id u"
  by (simp add: toEntry_def Let_def user.defs)

lemma compareEntries_active_selected:
  "Some (user_id a) = sel \<Longrightarrow> Some (user_id b) \<noteq> sel \<Longrightarrow> compareEntries sel True a b = - 1"
  by (simp add: compareEntries_def pinRule_def)

lemma compareEntries_active_unselected:
  "Some (user_id a) \<noteq> sel \<Longrightarrow> Some (user_id b) = sel \<Longrightarrow> compareEntries sel True a b = 1"
  by (simp add: compareEntries_def pinRule_def)

text \<open>
  Claim C6. Whenever the list is in active mode (\<open>activelySending\<close> is true) and
  the selected conversation is one of the listed ones, it is the first of the output,
  whatever its unread count, recency, presence or account age.
\<close>

theorem filteredUsers_selected_first:
  assumes "\<exists>u\<in>set users. Some (user_id u) = selected \<and> Some (user_id u) \<noteq> currentUid"
  shows "\<exists>e rest. filteredUsers users currentUid userPresence chatCounts selected True = e # rest
           \<and> Some (user_id e) = selected"
proof -
  let ?es = "otherUsers users currentUid userPresence chatCounts"
  let ?P = "\<lambda>e. Some (user_id e) = selected"
  from assms have "\<exists>e\<in>set ?es. ?P e"
    by (auto simp: otherUsers_def user_id_toEntry)
  then have "sortWith (compareEntries selected True) ?es \<noteq> []
      \<and> ?P (hd (sortWith (compareEntries selected True) ?es))"
  proof (rule sortWith_selected_first)
    fix a b :: entry assume "?P a" "\<not> ?P b"
    then show "compareEntries selected True a b \<le> 0"
      by (simp add: compareEntries_active_selected)
  next
    fix a b :: entry assume "\<not> ?P a" "?P b"
    then show "\<not> compareEntries selected True a b \<le> 0"
      by (simp add: compareEntries_active_unselected)
  qed
  then show ?thesis
    by (cases "sortWith (compareEntries selected True) ?es") (auto simp: filteredUsers_def)
qed


text \<open>Evaluation on the sample data.\<close>

lemmas sample_defs = alice_def bob_def sam_def bea_def cy_def sampleCounts_def samplePresence_def
  cyclicCounts_def cyclicPresence_def ledgerRow_def js_def
lemmas rank_defs = filteredUsers_def otherUsers_def toEntry_def createChatId_def Let_def
  user.defs entry.defs compareEntries_def pinRule_def unreadRule_def recencyRule_def
  presenceRule_def

theorem filteredUsers_selected_first_witness:
  "map user_id (filteredUsers [alice, bob] (Some (js ''me'')) samplePresence sampleCounts
      (Some (js ''bob'')) True) = [js ''bob'', js ''alice'']
   \<and> (\<exists>e rest. filteredUsers [alice, bob] (Some (js ''me'')) samplePresence sampleCounts
         (Some (js ''bob'')) True = e # rest \<and> Some (user_id e) = Some (js ''bob''))"
proof
  show "map user_id (filteredUsers [alice, bob] (Some (js ''me'')) samplePresence sampleCounts
      (Some (js ''bob'')) True) = [js ''bob'', js ''alice'']"
    by (simp add: sample_defs rank_defs)
next
  have "\<exists>u\<in>set [alice, bob]. Some (user_id u) = Some (js ''bob'') \<and> Some (user_id u) \<noteq> Some (js ''me'')"
    by (simp add: sample_defs)
  then show "\<exists>e rest. filteredUsers [alice, bob] (Some (js ''me'')) samplePresence sampleCounts
         (Some (js ''bob'')) True = e # rest \<and> Some (user_id e) = Some (js ''bob'')"
    by (rule filteredUsers_selected_first)
qed

text \<open>
  The comparator alone is not an order on all entries: the unread rule is skipped for
  the selected entry, so with \<^verbatim>\<open>sam\<close> selected but without a conversation, not in
  active mode, and a row for \<^verbatim>\<open>cy\<close> with unread messages and no timestamp,
  \<^verbatim>\<open>cy\<close> compares before \<^verbatim>\<open>bea\<close> (unread messages), \<^verbatim>\<open>bea\<close> before
  \<^verbatim>\<open>sam\<close> (online) and \<^verbatim>\<open>sam\<close> before \<^verbatim>\<open>cy\<close> (newer account). The ledger
  never holds such a row, as is shown next.
\<close>

lemma compareEntries_cycle_off_ledger:
  "compareEntries (Some (js ''sam'')) False
      (toEntry (Some (js ''me'')) cyclicPresence cyclicCounts cy)
      (toEntry (Some (js ''me'')) cyclicPresence cyclicCounts bea) < 0
   \<and> compareEntries (Some (js ''sam'')) False
      (toEntry (Some (js ''me'')) cyclicPresence cyclicCounts bea)
      (toEntry (Some (js ''me'')) cyclicPresence cyclicCounts sam) < 0
   \<and> compareEntries (Some (js ''sam'')) False
      (toEntry (Some (js ''me'')) cyclicPresence cyclicCounts sam)
      (toEntry (Some (js ''me'')) cyclicPresence cyclicCounts cy) < 0
   \<and> \<not> rowTimestamped (ledgerRow (js ''cy_me'') None 3)"
  by (simp add: sample_defs rank_defs rowTimestamped_def)

subsection \<open>The ledger that the code writes\<close>

text \<open>
  Every write of the code keeps the invariant of the ledger: the merge of a send writes
  the timestamp together with the counters, and the reset of \<^const>\<open>markChatAsRead\<close>
  writes a 0.
\<close>

lemma timestamped_emptyDoc: "timestamped emptyDoc"
  by (simp add: timestamped_def emptyDoc_def)

lemma set_update_cases:
  "x \<in> set (AList.update k v al) \<Longrightarrow> x = (k, v) \<or> x \<in> set al"
  by (induction al) (auto split: if_splits)

lemma getDoc_in_chats: "getDoc st c = Some d \<Longrightarrow> (c, d) \<in> set (chats st)"
  by (simp add: getDoc_def map_of_SomeD)

lemma timestamped_current:
  "ledgerInvariant st \<Longrightarrow> timestamped (case getDoc st c of None \<Rightarrow> emptyDoc | Some d \<Rightarrow> d)"
proof (cases "getDoc st c")
  case None
  then show ?thesis by (simp add: timestamped_emptyDoc)
next
  case (Some d)
  then have "(c, d) \<in> set (chats st)" by (rule getDoc_in_chats)
  moreover assume "ledgerInvariant st"
  ultimately have "timestamped (snd (c, d))" unfolding ledgerInvariant_def by blast
  with Some show ?thesis by simp
qed

lemma ledgerInvariant_setDoc_merge:
  assumes "ledgerInvariant st"
    and "\<And>old. timestamped old \<Longrightarrow> timestamped (mergeFields old data)"
  shows "ledgerInvariant (setDoc_merge st c data)"
  unfolding ledgerInvariant_def
proof
  fix x assume "x \<in> set (chats (setDoc_merge st c data))"
  then have "x = (c, mergeFields (case getDoc st c of None \<Rightarrow> emptyDoc | Some d \<Rightarrow> d) data)
      \<or> x \<in> set (chats st)"
    by (auto simp: setDoc_merge_def dest: set_update_cases)
  then show "timestamped (snd x)"
    using assms(1) assms(2) [OF timestamped_current [OF assms(1)], of c]
    by (auto simp: ledgerInvariant_def)
qed

lemma timestamped_ledgerUpdate: "timestamped (mergeFields old (ledgerUpdate S R p t n))"
  by (simp add: timestamped_def mergeFields_def ledgerUpdate_def)

lemma timestamped_counterReset:
  "timestamped old \<Longrightarrow> timestamped (mergeFields old (counterReset u))"
  by (auto simp: timestamped_def mergeFields_def counterReset_def emptyDoc_def map_add_def
      split: option.splits if_splits)

lemma ledgerInvariant_addDoc: "ledgerInvariant (addDoc st c m) = ledgerInvariant st"
  by (simp add: ledgerInvariant_def addDoc_def)

lemma ledgerInvariant_messages_update:
  "ledgerInvariant (st\<lparr>messages := f\<rparr>) = ledgerInvariant st"
  by (simp add: ledgerInvariant_def)

lemma ledgerInvariant_sendMessage:
  "ledgerInvariant st \<Longrightarrow> ledgerInvariant (snd (sendMessage st env S R content))"
  by (simp add: sendMessage_def Let_def ledgerInvariant_addDoc ledgerInvariant_setDoc_merge
      timestamped_ledgerUpdate)

lemma ledgerInvariant_sendMediaMessage:
  "ledgerInvariant st \<Longrightarrow> ledgerInvariant (snd (sendMediaMessage st env S R info ty))"
  by (simp add: sendMediaMessage_def Let_def ledgerInvariant_addDoc ledgerInvariant_setDoc_merge
      timestamped_ledgerUpdate)

lemma ledgerInvariant_markChatAsRead:
  "ledgerInvariant st \<Longrightarrow> ledgerInvariant (markChatAsRead st f c u)"
  by (simp add: markChatAsRead_def Let_def ledgerInvariant_messages_update
      ledgerInvariant_setDoc_merge timestamped_counterReset)

lemma ledgerInvariant_sendStep:
  "ledgerInvariant st \<Longrightarrow> ledgerInvariant (fst (sendStep st c))"
  by (cases "call_pc c")
    (simp_all add: sendStep_def Let_def ledgerInvariant_addDoc ledgerInvariant_setDoc_merge
      timestamped_ledgerUpdate)

lemma ledgerInvariant_applyOp: "ledgerInvariant st \<Longrightarrow> ledgerInvariant (applyOp st a)"
  by (cases a)
    (simp_all add: ledgerInvariant_sendMessage ledgerInvariant_sendMediaMessage
      ledgerInvariant_markChatAsRead ledgerInvariant_sendStep)

lemma ledgerInvariant_runOps: "ledgerInvariant st \<Longrightarrow> ledgerInvariant (runOps st ops)"
  by (induction ops arbitrary: st) (simp_all add: ledgerInvariant_applyOp)

lemma ledgerInvariant_emptyStore: "ledgerInvariant emptyStore"
  by (simp add: ledgerInvariant_def emptyStore_def)

text \<open>
  Hence every row that the subscription delivers has a timestamp when its counter is
  positive, and has its participants, so that the callback of the component sets
  \<^verbatim>\<open>chatCounts\<close>.
\<close>

lemma rowTimestamped_toRow: "timestamped (snd d) \<Longrightarrow> rowTimestamped (toRow u d)"
  by (auto simp: rowTimestamped_def toRow_def timestamped_def counterOrZero_def
      chat_doc.defs chat_row.defs split: option.splits)

lemma participants_toRow: "participants (toRow u d) = participants (snd d)"
  by (simp add: toRow_def chat_doc.defs chat_row.defs)

lemma rows_of_subscription:
  assumes "ledgerInvariant st" and "r \<in> set (getUserChatsWithCounts st uid)"
  shows "rowTimestamped r \<and> participants r \<noteq> None"
proof -
  from assms(2) obtain d where d: "d \<in> set (chats st)" "arrayContains (participants (snd d)) uid"
    and r: "r = toRow uid d"
    by (auto simp: getUserChatsWithCounts_def set_sortWith)
  from d(1) assms(1) have "timestamped (snd d)" by (simp add: ledgerInvariant_def)
  then have "rowTimestamped r" unfolding r by (rule rowTimestamped_toRow)
  moreover from d(2) have "participants r \<noteq> None"
    by (auto simp: r participants_toRow arrayContains_def split: option.splits)
  ultimately show ?thesis by simp
qed

lemma forEachChat_returns:
  "\<forall>r\<in>set rows. participants r \<noteq> None \<Longrightarrow> \<exists>m'. forEachChat uid rows m = Some m'"
  by (induction rows arbitrary: m) (auto split: option.splits)

lemma forEachChat_ran:
  "forEachChat uid rows m = Some m' \<Longrightarrow> m' k = Some r \<Longrightarrow> r \<in> set rows \<or> m k = Some r"
proof (induction rows arbitrary: m)
  case Nil
  then show ?case by simp
next
  case (Cons a rows)
  from Cons.prems(1) obtain m1 where step: "forEachChat uid rows m1 = Some m'"
    and m1: "m1 = m \<or> (\<exists>k'. m1 = m(k' \<mapsto> a))"
    by (auto split: option.splits if_splits)
  from Cons.IH [OF step Cons.prems(2)] have "r \<in> set rows \<or> m1 k = Some r" .
  with m1 show ?case by (auto split: if_splits)
qed

lemma chatCountsAfter_returns:
  assumes "ledgerInvariant st"
  shows "\<exists>chatCounts. chatCountsAfter st uid = Some chatCounts"
  unfolding chatCountsAfter_def
  using rows_of_subscription [OF assms] by (intro forEachChat_returns) blast

lemma chatCountsAfter_rows:
  assumes "ledgerInvariant st" and "chatCountsAfter st uid = Some chatCounts"
    and "chatCounts k = Some r"
  shows "rowTimestamped r"
proof -
  from forEachChat_ran [OF assms(2) [unfolded chatCountsAfter_def] assms(3)]
  have "r \<in> set (getUserChatsWithCounts st uid)" by simp
  with rows_of_subscription [OF assms(1)] show ?thesis by blast
qed

lemma toEntry_timestamped:
  assumes "\<And>k r. chatCounts k = Some r \<Longrightarrow> rowTimestamped r"
  shows "0 < entry_unreadCount (toEntry cu pres chatCounts u)
     \<longrightarrow> lastMessageTime (toEntry cu pres chatCounts u) \<noteq> None"
  using assms
  by (auto simp: toEntry_def Let_def user.defs entry.defs rowTimestamped_def split: option.splits)

lemma consistentInput_of_rows:
  assumes "\<And>k r. chatCounts k = Some r \<Longrightarrow> rowTimestamped r"
  shows "consistentInput sel act (otherUsers users cu pres chatCounts)"
  unfolding consistentInput_def
  using toEntry_timestamped [OF assms] by (auto simp: otherUsers_def)


lemma chatCountsAfter_runOps_returns:
  "\<exists>chatCounts. chatCountsAfter (runOps emptyStore ops) uid = Some chatCounts"
  by (intro chatCountsAfter_returns ledgerInvariant_runOps ledgerInvariant_emptyStore)

text \<open>
  Claim C7. \<^const>\<open>filteredUsers\<close> is a function of its inputs, and on the ledger data
  of the running system (the \<^verbatim>\<open>chatCounts\<close> of any store that the code produces),
  for every list of users, presence map, selected conversation and mode, its comparator
  is a total preorder, the order of \<^const>\<open>rankKey\<close>, and its result is the stable sort
  of the list by that order: sorted, with the entries of equal rank in the order of the
  input. So the output order is fixed by the input.
\<close>

theorem filteredUsers_stable_total_order:
  assumes "chatCountsAfter (runOps emptyStore ops) uid = Some chatCounts"
  shows "filteredUsers users currentUid userPresence chatCounts selected active
           = sort_key (rankKey selected active) (otherUsers users currentUid userPresence chatCounts)
       \<and> (\<forall>a\<in>set (otherUsers users currentUid userPresence chatCounts).
           \<forall>b\<in>set (otherUsers users currentUid userPresence chatCounts).
             compareEntries selected active a b \<le> 0
               \<longleftrightarrow> rankKey selected active a \<le> rankKey selected active b)
       \<and> sorted (map (rankKey selected active)
             (filteredUsers users currentUid userPresence chatCounts selected active))
       \<and> (\<forall>k. filter (\<lambda>e. rankKey selected active e = k)
               (filteredUsers users currentUid userPresence chatCounts selected active)
             = filter (\<lambda>e. rankKey selected active e = k)
               (otherUsers users currentUid userPresence chatCounts))"
proof -
  let ?es = "otherUsers users currentUid userPresence chatCounts"
  have inv: "ledgerInvariant (runOps emptyStore ops)"
    by (intro ledgerInvariant_runOps ledgerInvariant_emptyStore)
  have "consistentInput selected active ?es"
    by (rule consistentInput_of_rows) (rule chatCountsAfter_rows [OF inv assms])
  from filteredUsers_sort_by_rankKey [OF this]
  have eq: "filteredUsers users currentUid userPresence chatCounts selected active
      = sort_key (rankKey selected active) ?es"
    and iff: "\<forall>a\<in>set ?es. \<forall>b\<in>set ?es. compareEntries selected active a b \<le> 0
               \<longleftrightarrow> rankKey selected active a \<le> rankKey selected active b"
    by blast+
  have "sorted (map (rankKey selected active) (sort_key (rankKey selected active) ?es))"
    by (rule sorted_sort_key)
  moreover have "\<forall>k. filter (\<lambda>e. rankKey selected active e = k)
        (sort_key (rankKey selected active) ?es)
      = filter (\<lambda>e. rankKey selected active e = k) ?es"
    by (simp add: sort_key_stable)
  ultimately show ?thesis using eq iff by simp
qed

text \<open>
  After the sample history the conversation with \<^verbatim>\<open>alice\<close> has two unread messages
  and the later timestamp; with \<^verbatim>\<open>bob\<close> selected his conversation, which has a last
  message, is pinned.
\<close>

theorem filteredUsers_stable_total_order_witness:
  "chatCountsAfter (runOps emptyStore sampleOps) (js ''me'')
     = Some (the (chatCountsAfter (runOps emptyStore sampleOps) (js ''me'')))
   \<and> filteredUsers [alice, bob] (Some (js ''me'')) samplePresence
        (the (chatCountsAfter (runOps emptyStore sampleOps) (js ''me''))) (Some (js ''bob'')) False
       = sort_key (rankKey (Some (js ''bob'')) False)
           (otherUsers [alice, bob] (Some (js ''me'')) samplePresence
              (the (chatCountsAfter (runOps emptyStore sampleOps) (js ''me''))))
   \<and> map user_id (filteredUsers [alice, bob] (Some (js ''me'')) samplePresence
        (the (chatCountsAfter (runOps emptyStore sampleOps) (js ''me''))) (Some (js ''bob'')) False)
       = [js ''bob'', js ''alice'']
   \<and> map user_id (filteredUsers [bob, alice] (Some (js ''me'')) samplePresence
        (the (chatCountsAfter (runOps emptyStore sampleOps) (js ''me''))) None False)
       = [js ''alice'', js ''bob'']"
proof -
  have h: "chatCountsAfter (runOps emptyStore sampleOps) (js ''me'')
     = Some (the (chatCountsAfter (runOps emptyStore sampleOps) (js ''me'')))"
    using chatCountsAfter_runOps_returns [of sampleOps "js ''me''"] by auto
  have e1: "map user_id (filteredUsers [alice, bob] (Some (js ''me'')) samplePresence
        (the (chatCountsAfter (runOps emptyStore sampleOps) (js ''me''))) (Some (js ''bob'')) False)
       = [js ''bob'', js ''alice'']"
    by code_simp
  have e2: "map user_id (filteredUsers [bob, alice] (Some (js ''me'')) samplePresence
        (the (chatCountsAfter (runOps emptyStore sampleOps) (js ''me''))) None False)
       = [js ''alice'', js ''bob'']"
    by code_simp
  from filteredUsers_stable_total_order [OF h, of "[alice, bob]" "Some (js ''me'')" samplePresence
      "Some (js ''bob'')" False] h e1 e2
  show ?thesis by blast
qed

subsection \<open>Backward pagination\<close>

lemma set_orderByTimestampDesc: "set (orderByTimestampDesc docs) = set docs"
  by (simp add: orderByTimestampDesc_def)

lemma sorted_rev_take_orderBy:
  "sorted (map timestamp (rev (take n (orderByTimestampDesc docs))))"
proof -
  have "sorted (map timestamp (sort_key timestamp docs))" by (rule sorted_sort_key)
  then have "sorted (drop (length docs - n) (map timestamp (sort_key timestamp docs)))"
    by (rule sorted_wrt_drop)
  moreover have "rev (take n (rev (sort_key timestamp docs)))
      = drop (length docs - n) (sort_key timestamp docs)"
    by (simp add: take_rev)
  ultimately show ?thesis by (simp add: orderByTimestampDesc_def drop_map rev_map)
qed

lemma getChatMessages_sorted: "sorted (map timestamp (getChatMessages st u1 u2 n))"
  unfolding getChatMessages_def by (rule sorted_rev_take_orderBy)

lemma getChatMessages_oldest_first:
  assumes "getChatMessages st u1 u2 n = m0 # rest" and "m \<in> set (getChatMessages st u1 u2 n)"
  shows "timestamp m0 \<le> timestamp m"
  using getChatMessages_sorted [of st u1 u2 n] assms by auto

text \<open>
  Claim C8. A page returned by \<open>loadOlder(u1, u2, beforeMessage, pageSize)\<close> has at
  most \<open>pageSize\<close> messages, every one strictly older than \<open>beforeMessage\<close>, the
  oldest first; none of them is a message of a live page with a timestamp at or after
  that of \<open>beforeMessage\<close>, and when \<open>beforeMessage\<close> is the oldest message of the
  live page, the two pages have no message in common.
\<close>

theorem loadOlderMessages_page:
  assumes "loadOlderMessages st getDocsOk u1 u2 before pageSize = Some page"
  shows "length page \<le> pageSize
       \<and> (\<forall>m\<in>set page. timestamp m < timestamp before)
       \<and> sorted (map timestamp page)
       \<and> (\<forall>m\<in>set page. \<forall>m'\<in>set (getChatMessages st u1 u2 liveSize).
             timestamp before \<le> timestamp m' \<longrightarrow> m \<noteq> m')
       \<and> (\<forall>rest. getChatMessages st u1 u2 liveSize = before # rest
             \<longrightarrow> set page \<inter> set (getChatMessages st u1 u2 liveSize) = {})"
proof -
  let ?older = "filter (\<lambda>m. timestamp m < timestamp before) (messages st (createChatId u1 u2))"
  from assms have page: "page = rev (take pageSize (orderByTimestampDesc ?older))"
    by (simp add: loadOlderMessages_def split: if_splits)
  have len: "length page \<le> pageSize" by (simp add: page)
  have "set page \<subseteq> set (orderByTimestampDesc ?older)"
    unfolding page by (simp add: set_take_subset)
  then have old: "\<forall>m\<in>set page. timestamp m < timestamp before"
    by (auto simp: set_orderByTimestampDesc)
  have srt: "sorted (map timestamp page)" unfolding page by (rule sorted_rev_take_orderBy)
  have live: "\<forall>m\<in>set page. \<forall>m'\<in>set (getChatMessages st u1 u2 liveSize).
             timestamp before \<le> timestamp m' \<longrightarrow> m \<noteq> m'"
    using old by auto
  have disj: "\<forall>rest. getChatMessages st u1 u2 liveSize = before # rest
             \<longrightarrow> set page \<inter> set (getChatMessages st u1 u2 liveSize) = {}"
  proof (intro allI impI)
    fix rest assume h: "getChatMessages st u1 u2 liveSize = before # rest"
    show "set page \<inter> set (getChatMessages st u1 u2 liveSize) = {}"
    proof (rule ccontr)
      assume "set page \<inter> set (getChatMessages st u1 u2 liveSize) \<noteq> {}"
      then obtain m where m: "m \<in> set page" "m \<in> set (getChatMessages st u1 u2 liveSize)" by blast
      from getChatMessages_oldest_first [OF h m(2)] have "timestamp before \<le> timestamp m" .
      with old m(1) show False by auto
    qed
  qed
  from len old srt live disj show ?thesis by blast
qed

text \<open>With a positive page size and no rejection a page is returned.\<close>

lemma loadOlderMessages_returns:
  "0 < pageSize \<Longrightarrow> \<exists>page. loadOlderMessages st True u1 u2 before pageSize = Some page"
  by (simp add: loadOlderMessages_def)

text \<open>
  The tenth of thirty messages as the boundary and a page size of 5 give the messages 5
  to 9; the live page of the latest 21 messages starts at the boundary.
\<close>

theorem loadOlderMessages_page_witness:
  "loadOlderMessages thirtyMessages True (js ''alice'') (js ''bob'') (textAt 10) 5
     = Some (map textAt [5, 6, 7, 8, 9])
   \<and> getChatMessages thirtyMessages (js ''alice'') (js ''bob'') 21 = map textAt [10..<31]
   \<and> set (map textAt [5, 6, 7, 8, 9])
         \<inter> set (getChatMessages thirtyMessages (js ''alice'') (js ''bob'') 21) = {}"
proof -
  have page: "loadOlderMessages thirtyMessages True (js ''alice'') (js ''bob'') (textAt 10) 5
     = Some (map textAt [5, 6, 7, 8, 9])"
    by code_simp
  have live: "getChatMessages thirtyMessages (js ''alice'') (js ''bob'') 21 = map textAt [10..<31]"
    by code_simp
  have "[10..<31] = 10 # [11..<31]" by (simp add: upt_conv_Cons)
  with live have "getChatMessages thirtyMessages (js ''alice'') (js ''bob'') 21
      = textAt 10 # map textAt [11..<31]" by simp
  with loadOlderMessages_page [OF page, of 21]
  have "set (map textAt [5, 6, 7, 8, 9])
         \<inter> set (getChatMessages thirtyMessages (js ''alice'') (js ''bob'') 21) = {}"
    by blast
  with page live show ?thesis by blast
qed

subsection \<open>Two sends at the same time\<close>

text \<open>
  The three steps of one call, taken without another call in between, are
  \<^const>\<open>sendMessage\<close>.
\<close>

lemma runSchedule_one_call:
  "fst (runSchedule st [startCall env S R content] [0, 0, 0])
     = snd (sendMessage st (env\<lparr>fault := NoFault\<rparr>) S R content)
   \<and> map call_pc (snd (runSchedule st [startCall env S R content] [0, 0, 0])) = [Returned]"
  by (simp add: sendStep_def startCall_def sendMessage_def Let_def)

text \<open>
  Claim C2 says that the update of the counter is an atomic increment on the server, so
  that two sends at the same time each add 1. The code reads the counter with
  \<^verbatim>\<open>getDoc\<close> and writes the value it has read plus 1 with \<^verbatim>\<open>setDoc\<close>: when the
  two calls alternate, both read 0 and both write 1. Both calls return, two messages are
  stored, and the counter of the receiver is 1; one call after the other gives 2.
\<close>

theorem concurrent_sends_lose_increment:
  "map call_pc (snd (runSchedule emptyStore [hi, yo] [0, 1, 0, 1, 0, 1])) = [Returned, Returned]
   \<and> length (messages (fst (runSchedule emptyStore [hi, yo] [0, 1, 0, 1, 0, 1]))
        (js ''alice_bob'')) = 2
   \<and> unreadCount (fst (runSchedule emptyStore [hi, yo] [0, 1, 0, 1, 0, 1]))
        (js ''alice_bob'') (js ''bob'') = 1
   \<and> unreadCount (fst (runSchedule emptyStore [hi, yo] [0, 0, 0, 1, 1, 1]))
        (js ''alice_bob'') (js ''bob'') = 2"
  by code_simp

subsection \<open>Presence subscriptions\<close>

lemma listeners_forEachUserId:
  "listeners (forEachUserId db sub userIds)
     = listeners db @ map (\<lambda>u. \<lparr>subscription = sub, watched = u\<rparr>) userIds"
  by (induction userIds arbitrary: db) (simp_all add: onValue_def fire_def Let_def)

text \<open>
  Every call registers one listener for each user id and returns no handle.
\<close>

lemma listenToUserPresence_returns_no_handle:
  "fst (listenToUserPresence db userIds) = None
   \<and> listeners (snd (listenToUserPresence db userIds))
       = listeners db @ map (\<lambda>u. \<lparr>subscription = nextSubscription db, watched = u\<rparr>) userIds"
  by (simp add: listenToUserPresence_def Let_def listeners_forEachUserId)

text \<open>
  Claim C9 says that the subscription returns a handle whose cancellation releases
  every listener. The code returns nothing, so there is nothing to cancel: after two
  subscriptions to \<^verbatim>\<open>bob\<close>, as the component makes on every snapshot of the users,
  two listeners are registered, and after the first call of each a change of his state
  calls the callback of both again.
\<close>

theorem listenToUserPresence_leaks:
  "fst (listenToUserPresence emptyRtdb [js ''bob'']) = None
   \<and> length (listeners (snd (listenToUserPresence
        (snd (listenToUserPresence emptyRtdb [js ''bob''])) [js ''bob'']))) = 2
   \<and> map fst (delivered (setStatus (snd (listenToUserPresence
        (snd (listenToUserPresence emptyRtdb [js ''bob''])) [js ''bob'']))
        (js ''bob'') (js ''online''))) = [0, 1, 0, 1]"
  by (simp add: listenToUserPresence_def Let_def emptyRtdb_def onValue_def setStatus_def
      fire_def js_def)

end
